theory Spec2Isabelle
  imports Complex_Main "HOL-Library.Word"
begin

section \<open>Strings\<close>

text \<open>
  A JavaScript string is a sequence of UTF-16 code units, and \<open>length\<close> counts code
  units.  \<open>String.prototype.trim\<close> strips the ECMAScript WhiteSpace and LineTerminator
  code points from both ends; all of them are single code units.  \<open>slice(0, n)\<close> keeps
  the first \<open>n\<close> code units.
\<close>

type_synonym ustring = "16 word list"

definition ascii :: "string \<Rightarrow> ustring" where
  "ascii s = map (\<lambda>c. of_char c) s"

definition isWhiteSpace :: "16 word \<Rightarrow> bool" where
  "isWhiteSpace c \<longleftrightarrow>
     c = 0x09 \<or> c = 0x0A \<or> c = 0x0B \<or> c = 0x0C \<or> c = 0x0D \<or> c = 0x20 \<or> c = 0xA0
     \<or> c = 0x1680 \<or> (0x2000 \<le> c \<and> c \<le> 0x200A) \<or> c = 0x2028 \<or> c = 0x2029
     \<or> c = 0x202F \<or> c = 0x205F \<or> c = 0x3000 \<or> c = 0xFEFF"

definition trim :: "ustring \<Rightarrow> ustring" where
  "trim s = rev (dropWhile isWhiteSpace (rev (dropWhile isWhiteSpace s)))"

definition slice0 :: "nat \<Rightarrow> ustring \<Rightarrow> ustring" where
  "slice0 n s = take n s"

section \<open>Validation helpers (helpers/validation)\<close>

definition isValidTaskTitle :: "ustring \<Rightarrow> bool" where
  "isValidTaskTitle title \<longleftrightarrow> length (trim title) > 0 \<and> length title \<le> 200"

definition isValidTaskDescription :: "ustring option \<Rightarrow> bool" where
  "isValidTaskDescription description =
     (case description of None \<Rightarrow> True | Some d \<Rightarrow> length d \<le> 5000)"

definition isValidMessageContent :: "ustring \<Rightarrow> bool" where
  "isValidMessageContent content \<longleftrightarrow> length (trim content) > 0 \<and> length content \<le> 10000"

definition sanitizeTaskTitle :: "ustring \<Rightarrow> ustring" where
  "sanitizeTaskTitle title = slice0 200 (trim title)"

definition sanitizeTaskDescription :: "ustring option \<Rightarrow> ustring option" where
  "sanitizeTaskDescription description =
     (case description of None \<Rightarrow> None | Some d \<Rightarrow> Some (slice0 5000 (trim d)))"

text \<open>
  \<open>validateAndSanitizeTask\<close> returns \<open>{valid: false, error}\<close> or
  \<open>{valid: true, sanitized}\<close>: the left summand carries the error message, the right
  one the sanitized title and description.
\<close>

definition validateAndSanitizeTask ::
  "ustring \<Rightarrow> ustring option \<Rightarrow> string + (ustring \<times> ustring option)" where
  "validateAndSanitizeTask title description =
     (if \<not> isValidTaskTitle title then
        Inl ''Task title must be between 1 and 200 characters''
      else if \<not> isValidTaskDescription description then
        Inl ''Task description must be less than 5000 characters''
      else Inr (sanitizeTaskTitle title, sanitizeTaskDescription description))"

section \<open>Data model (schema)\<close>

datatype task_status = Active | Completed | Deleted

datatype thread_status = ThreadActive | Archived

datatype role = User | Assistant

text \<open>
  Every document of the store carries the system fields \<open>_id\<close> and \<open>_creationTime\<close>;
  all three tables of the schema have \<open>userId\<close> and \<open>createdAt\<close>.
\<close>

record doc =
  doc_id :: nat
  creationTime :: nat
  userId :: string
  createdAt :: nat

record task = doc +
  title :: ustring
  description :: "ustring option"
  status :: task_status
  completedAt :: "nat option"
  updatedAt :: nat

record thread = doc +
  thread_title :: "ustring option"
  thread_status :: thread_status
  thread_updatedAt :: nat

record message = doc +
  threadId :: nat
  role :: role
  content :: ustring

text \<open>
  The store: each table is the list of its documents in the order of their creation,
  which is the order of an index among documents that agree on the indexed fields.
  \<open>next_id\<close> is the next fresh document id and \<open>clock\<close> the next creation stamp.
\<close>

record db =
  tasks :: "task list"
  threads :: "thread list"
  messages :: "message list"
  next_id :: nat
  clock :: nat

definition empty_db :: db where
  "empty_db = \<lparr>tasks = [], threads = [], messages = [], next_id = 0, clock = 0\<rparr>"

text \<open>
  What a handler receives besides the store: the authenticated user's id (if any),
  the answer of the rate limiter for a limit name and a key, and \<open>Date.now()\<close>, which is
  fixed during one handler execution.  The limiter's \<open>retryAfter\<close> is a JavaScript
  number of milliseconds; every finite such number is a real.
\<close>

record rate_limit_status =
  ok :: bool
  retryAfter :: real

record ctx =
  authUser :: "string option"
  limit :: "string \<Rightarrow> string \<Rightarrow> rate_limit_status"
  now :: nat

text \<open>
  The errors of a call.  \<open>ArgumentValidationError\<close> is thrown by the argument validator
  of a registered function, before its handler runs.  The others are thrown by the
  handlers: \<open>NotAuthenticated\<close> is \<open>Error("Not authenticated")\<close>; \<open>RateLimitExceeded r\<close>
  is the rate limit error for a limiter answer whose \<open>retryAfter\<close> is \<open>r\<close> (its message
  prints \<open>Math.ceil(r / 1000)\<close> seconds, a floating-point computation that is not
  carried out here); the other three carry their message.
\<close>

datatype error =
    ArgumentValidationError
  | NotAuthenticated
  | RateLimitExceeded real
  | ValidationFailed string
  | NotFound string
  | NotAuthorized string

definition rateLimitError :: "rate_limit_status \<Rightarrow> error" where
  "rateLimitError st = RateLimitExceeded (retryAfter st)"

subsection \<open>Store primitives\<close>

text \<open>
  \<open>ctx.db.get\<close>, \<open>ctx.db.patch\<close> and \<open>ctx.db.delete\<close> by document id.  The store
  raises when \<open>patch\<close> or \<open>delete\<close> is given an id that has no document; every handler
  below fetches the document first, so that branch is never taken and the primitives
  here leave the table as it is in that case.  A document id is a table together with a
  number; the numbers are drawn from one counter for all tables, and a row stores the
  number of its id.
\<close>

definition db_get :: "nat \<Rightarrow> ('a doc_scheme) list \<Rightarrow> 'a doc_scheme option" where
  "db_get i rows = find (\<lambda>r. doc_id r = i) rows"

definition db_patch ::
  "nat \<Rightarrow> ('a doc_scheme \<Rightarrow> 'a doc_scheme) \<Rightarrow> ('a doc_scheme) list \<Rightarrow> ('a doc_scheme) list" where
  "db_patch i f rows = map (\<lambda>r. if doc_id r = i then f r else r) rows"

definition db_delete :: "nat \<Rightarrow> ('a doc_scheme) list \<Rightarrow> ('a doc_scheme) list" where
  "db_delete i rows = filter (\<lambda>r. doc_id r \<noteq> i) rows"

text \<open>
  An index query with equality constraints, collected in ascending or descending
  order of the index.
\<close>

definition collect_asc :: "('a \<Rightarrow> bool) \<Rightarrow> 'a list \<Rightarrow> 'a list" where
  "collect_asc p rows = filter p rows"

definition collect_desc :: "('a \<Rightarrow> bool) \<Rightarrow> 'a list \<Rightarrow> 'a list" where
  "collect_desc p rows = rev (filter p rows)"

section \<open>Database layer: tasks (db/tasks.ts)\<close>

definition createTask :: "ctx \<Rightarrow> string \<Rightarrow> ustring \<Rightarrow> ustring option \<Rightarrow> db \<Rightarrow> nat \<times> db" where
  "createTask c uid t d s =
     (next_id s,
      s\<lparr>tasks := tasks s @
           [\<lparr>doc_id = next_id s, creationTime = clock s, userId = uid, createdAt = now c,
             title = t, description = d, status = Active, completedAt = None,
             updatedAt = now c\<rparr>],
        next_id := Suc (next_id s), clock := Suc (clock s)\<rparr>)"

definition getTaskById :: "db \<Rightarrow> nat \<Rightarrow> task option" where
  "getTaskById s i = db_get i (tasks s)"

definition getTasksByUser :: "db \<Rightarrow> string \<Rightarrow> task list" where
  "getTasksByUser s uid = collect_desc (\<lambda>t. userId t = uid) (tasks s)"

definition getTasksByUserAndStatus :: "db \<Rightarrow> string \<Rightarrow> task_status \<Rightarrow> task list" where
  "getTasksByUserAndStatus s uid st =
     collect_desc (\<lambda>t. userId t = uid \<and> status t = st) (tasks s)"

definition getActiveTasksByUser :: "db \<Rightarrow> string \<Rightarrow> task list" where
  "getActiveTasksByUser s uid = getTasksByUserAndStatus s uid Active"

definition getCompletedTasksByUser :: "db \<Rightarrow> string \<Rightarrow> task list" where
  "getCompletedTasksByUser s uid = getTasksByUserAndStatus s uid Completed"

definition completeTask :: "ctx \<Rightarrow> nat \<Rightarrow> db \<Rightarrow> db" where
  "completeTask c i s =
     s\<lparr>tasks := db_patch i
        (\<lambda>t. t\<lparr>status := Completed, completedAt := Some (now c), updatedAt := now c\<rparr>)
        (tasks s)\<rparr>"

definition reactivateTask :: "ctx \<Rightarrow> nat \<Rightarrow> db \<Rightarrow> db" where
  "reactivateTask c i s =
     s\<lparr>tasks := db_patch i
        (\<lambda>t. t\<lparr>status := Active, completedAt := None, updatedAt := now c\<rparr>)
        (tasks s)\<rparr>"

text \<open>
  \<open>updateTask\<close> patches with \<open>{...args, updatedAt}\<close>: a key that is absent from \<open>args\<close>
  leaves its field as it is.
\<close>

definition updateTask :: "ctx \<Rightarrow> nat \<Rightarrow> ustring option \<Rightarrow> ustring option \<Rightarrow> db \<Rightarrow> db" where
  "updateTask c i targ darg s =
     s\<lparr>tasks := db_patch i
        (\<lambda>t. t\<lparr>title := (case targ of None \<Rightarrow> title t | Some x \<Rightarrow> x),
               description := (case darg of None \<Rightarrow> description t | Some x \<Rightarrow> Some x),
               updatedAt := now c\<rparr>)
        (tasks s)\<rparr>"

definition softDeleteTask :: "ctx \<Rightarrow> nat \<Rightarrow> db \<Rightarrow> db" where
  "softDeleteTask c i s =
     s\<lparr>tasks := db_patch i (\<lambda>t. t\<lparr>status := Deleted, updatedAt := now c\<rparr>) (tasks s)\<rparr>"

definition hardDeleteTask :: "nat \<Rightarrow> db \<Rightarrow> db" where
  "hardDeleteTask i s = s\<lparr>tasks := db_delete i (tasks s)\<rparr>"

section \<open>Database layer: messages (db/messages.ts)\<close>

definition createMessage :: "ctx \<Rightarrow> nat \<Rightarrow> string \<Rightarrow> role \<Rightarrow> ustring \<Rightarrow> db \<Rightarrow> nat \<times> db" where
  "createMessage c tid uid r txt s =
     (next_id s,
      s\<lparr>messages := messages s @
           [\<lparr>doc_id = next_id s, creationTime = clock s, userId = uid, createdAt = now c,
             threadId = tid, role = r, content = txt\<rparr>],
        next_id := Suc (next_id s), clock := Suc (clock s)\<rparr>)"

definition getMessagesByThread :: "db \<Rightarrow> nat \<Rightarrow> message list" where
  "getMessagesByThread s tid = collect_asc (\<lambda>m. threadId m = tid) (messages s)"

definition deleteMessage :: "nat \<Rightarrow> db \<Rightarrow> db" where
  "deleteMessage i s = s\<lparr>messages := db_delete i (messages s)\<rparr>"

text \<open>The loop of \<open>deleteMessagesByThread\<close> deletes the collected messages one by one.\<close>

definition deleteMessagesByThread :: "nat \<Rightarrow> db \<Rightarrow> db" where
  "deleteMessagesByThread tid s =
     fold (\<lambda>m s'. deleteMessage (doc_id m) s')
       (collect_asc (\<lambda>m. threadId m = tid) (messages s)) s"

section \<open>Database layer: threads\<close>

text \<open>
  The module \<open>db/threads\<close> is not among the sources; only its callers in the assistant
  endpoints and the schema of the \<open>threads\<close> table are.  The spec says of the
  data-access layer that each operation is a single scoped read or write against the
  store, that a thread has an owner, an optional title, a status that is active or
  archived, \<open>createdAt\<close> and \<open>updatedAt\<close>, and that deleting a thread is terminal.
\<close>

text \<open>
  Modelled from the spec: \<open>createThread\<close> of \<open>db/threads\<close>, which is missing from the
  sources; it inserts an active thread of the user with the given title.
\<close>

definition createThread_db :: "ctx \<Rightarrow> string \<Rightarrow> ustring option \<Rightarrow> db \<Rightarrow> nat \<times> db" where
  "createThread_db c uid t s =
     (next_id s,
      s\<lparr>threads := threads s @
           [\<lparr>doc_id = next_id s, creationTime = clock s, userId = uid, createdAt = now c,
             thread_title = t, thread_status = ThreadActive, thread_updatedAt = now c\<rparr>],
        next_id := Suc (next_id s), clock := Suc (clock s)\<rparr>)"

text \<open>
  Modelled from the spec: \<open>getThreadById\<close> of \<open>db/threads\<close>, which is missing from the
  sources; it reads the thread with the given id, if there is one.
\<close>

definition getThreadById :: "db \<Rightarrow> nat \<Rightarrow> thread option" where
  "getThreadById s i = db_get i (threads s)"

text \<open>
  Modelled from the spec: \<open>updateThread\<close> of \<open>db/threads\<close>, which is missing from the
  sources; it patches the title of the thread.
\<close>

definition updateThread_db :: "ctx \<Rightarrow> nat \<Rightarrow> ustring \<Rightarrow> db \<Rightarrow> db" where
  "updateThread_db c i t s =
     s\<lparr>threads := db_patch i
        (\<lambda>th. th\<lparr>thread_title := Some t, thread_updatedAt := now c\<rparr>) (threads s)\<rparr>"

text \<open>
  Modelled from the spec: \<open>archiveThread\<close> of \<open>db/threads\<close>, which is missing from the
  sources; it patches the status of the thread to archived.
\<close>

definition archiveThread_db :: "ctx \<Rightarrow> nat \<Rightarrow> db \<Rightarrow> db" where
  "archiveThread_db c i s =
     s\<lparr>threads := db_patch i
        (\<lambda>th. th\<lparr>thread_status := Archived, thread_updatedAt := now c\<rparr>) (threads s)\<rparr>"

text \<open>
  Modelled from the spec: \<open>deleteThread\<close> of \<open>db/threads\<close>, which is missing from the
  sources; it deletes the thread row.
\<close>

definition deleteThread_db :: "nat \<Rightarrow> db \<Rightarrow> db" where
  "deleteThread_db i s = s\<lparr>threads := db_delete i (threads s)\<rparr>"

section \<open>Endpoint layer: tasks (endpoints/tasks)\<close>

text \<open>
  The definitions of this section and the next are the handlers of the registered
  functions.  A handler runs once the argument validator has accepted the arguments,
  so an id it receives is an id of the table its validator names, given here by its
  number; the registered functions with their validators follow the handlers.  A
  handler returns its result or the error it throws, together with the store it
  leaves.  Every \<open>throw\<close> of the handlers precedes their first write.
\<close>

definition create ::
  "ctx \<Rightarrow> ustring \<Rightarrow> ustring option \<Rightarrow> db \<Rightarrow> (error + nat) \<times> db" where
  "create c targ darg s =
     (case authUser c of
        None \<Rightarrow> (Inl NotAuthenticated, s)
      | Some user \<Rightarrow>
          if \<not> ok (limit c ''createTask'' user) then
            (Inl (rateLimitError (limit c ''createTask'' user)), s)
          else
            (case validateAndSanitizeTask targ darg of
               Inl msg \<Rightarrow> (Inl (ValidationFailed msg), s)
             | Inr (t, d) \<Rightarrow>
                 (case createTask c user t d s of (i, s') \<Rightarrow> (Inr i, s'))))"

definition list_tasks :: "ctx \<Rightarrow> db \<Rightarrow> error + task list" where
  "list_tasks c s =
     (case authUser c of
        None \<Rightarrow> Inl NotAuthenticated
      | Some user \<Rightarrow> Inr (getTasksByUser s user))"

definition listActive :: "ctx \<Rightarrow> db \<Rightarrow> error + task list" where
  "listActive c s =
     (case authUser c of
        None \<Rightarrow> Inl NotAuthenticated
      | Some user \<Rightarrow> Inr (getActiveTasksByUser s user))"

definition listCompleted :: "ctx \<Rightarrow> db \<Rightarrow> error + task list" where
  "listCompleted c s =
     (case authUser c of
        None \<Rightarrow> Inl NotAuthenticated
      | Some user \<Rightarrow> Inr (getCompletedTasksByUser s user))"

definition get_task :: "ctx \<Rightarrow> nat \<Rightarrow> db \<Rightarrow> error + task" where
  "get_task c i s =
     (case authUser c of
        None \<Rightarrow> Inl NotAuthenticated
      | Some user \<Rightarrow>
          (case getTaskById s i of
             None \<Rightarrow> Inl (NotFound ''Task not found'')
           | Some t \<Rightarrow>
               if userId t \<noteq> user then Inl (NotAuthorized ''Not authorized to view this task'')
               else Inr t))"

definition update ::
  "ctx \<Rightarrow> nat \<Rightarrow> ustring option \<Rightarrow> ustring option \<Rightarrow> db \<Rightarrow> (error + unit) \<times> db" where
  "update c i targ darg s =
     (case authUser c of
        None \<Rightarrow> (Inl NotAuthenticated, s)
      | Some user \<Rightarrow>
          if \<not> ok (limit c ''updateTask'' user) then
            (Inl (rateLimitError (limit c ''updateTask'' user)), s)
          else
            (case getTaskById s i of
               None \<Rightarrow> (Inl (NotFound ''Task not found''), s)
             | Some t \<Rightarrow>
                 if userId t \<noteq> user then
                   (Inl (NotAuthorized ''Not authorized to update this task''), s)
                 else if targ \<noteq> None \<or> darg \<noteq> None then
                   (case validateAndSanitizeTask
                           (case targ of None \<Rightarrow> title t | Some x \<Rightarrow> x) darg of
                      Inl msg \<Rightarrow> (Inl (ValidationFailed msg), s)
                    | Inr _ \<Rightarrow> (Inr (), updateTask c i targ darg s))
                 else (Inr (), updateTask c i targ darg s)))"

definition complete :: "ctx \<Rightarrow> nat \<Rightarrow> db \<Rightarrow> (error + unit) \<times> db" where
  "complete c i s =
     (case authUser c of
        None \<Rightarrow> (Inl NotAuthenticated, s)
      | Some user \<Rightarrow>
          if \<not> ok (limit c ''updateTask'' user) then
            (Inl (rateLimitError (limit c ''updateTask'' user)), s)
          else
            (case getTaskById s i of
               None \<Rightarrow> (Inl (NotFound ''Task not found''), s)
             | Some t \<Rightarrow>
                 if userId t \<noteq> user then
                   (Inl (NotAuthorized ''Not authorized to complete this task''), s)
                 else (Inr (), completeTask c i s)))"

definition reactivate :: "ctx \<Rightarrow> nat \<Rightarrow> db \<Rightarrow> (error + unit) \<times> db" where
  "reactivate c i s =
     (case authUser c of
        None \<Rightarrow> (Inl NotAuthenticated, s)
      | Some user \<Rightarrow>
          if \<not> ok (limit c ''updateTask'' user) then
            (Inl (rateLimitError (limit c ''updateTask'' user)), s)
          else
            (case getTaskById s i of
               None \<Rightarrow> (Inl (NotFound ''Task not found''), s)
             | Some t \<Rightarrow>
                 if userId t \<noteq> user then
                   (Inl (NotAuthorized ''Not authorized to reactivate this task''), s)
                 else (Inr (), reactivateTask c i s)))"

definition remove :: "ctx \<Rightarrow> nat \<Rightarrow> db \<Rightarrow> (error + unit) \<times> db" where
  "remove c i s =
     (case authUser c of
        None \<Rightarrow> (Inl NotAuthenticated, s)
      | Some user \<Rightarrow>
          if \<not> ok (limit c ''deleteTask'' user) then
            (Inl (rateLimitError (limit c ''deleteTask'' user)), s)
          else
            (case getTaskById s i of
               None \<Rightarrow> (Inl (NotFound ''Task not found''), s)
             | Some t \<Rightarrow>
                 if userId t \<noteq> user then
                   (Inl (NotAuthorized ''Not authorized to delete this task''), s)
                 else (Inr (), softDeleteTask c i s)))"

definition permanentlyDelete :: "ctx \<Rightarrow> nat \<Rightarrow> db \<Rightarrow> (error + unit) \<times> db" where
  "permanentlyDelete c i s =
     (case authUser c of
        None \<Rightarrow> (Inl NotAuthenticated, s)
      | Some user \<Rightarrow>
          if \<not> ok (limit c ''deleteTask'' user) then
            (Inl (rateLimitError (limit c ''deleteTask'' user)), s)
          else
            (case getTaskById s i of
               None \<Rightarrow> (Inl (NotFound ''Task not found''), s)
             | Some t \<Rightarrow>
                 if userId t \<noteq> user then
                   (Inl (NotAuthorized ''Not authorized to permanently delete this task''), s)
                 else (Inr (), hardDeleteTask i s)))"

section \<open>Endpoint layer: assistant (endpoints/assistant)\<close>

definition createThread :: "ctx \<Rightarrow> ustring option \<Rightarrow> db \<Rightarrow> (error + nat) \<times> db" where
  "createThread c targ s =
     (case authUser c of
        None \<Rightarrow> (Inl NotAuthenticated, s)
      | Some user \<Rightarrow>
          if \<not> ok (limit c ''createThread'' user) then
            (Inl (rateLimitError (limit c ''createThread'' user)), s)
          else (case createThread_db c user targ s of (i, s') \<Rightarrow> (Inr i, s')))"

definition getThread :: "ctx \<Rightarrow> nat \<Rightarrow> db \<Rightarrow> error + thread \<times> message list" where
  "getThread c i s =
     (case authUser c of
        None \<Rightarrow> Inl NotAuthenticated
      | Some user \<Rightarrow>
          (case getThreadById s i of
             None \<Rightarrow> Inl (NotFound ''Thread not found'')
           | Some th \<Rightarrow>
               if userId th \<noteq> user then
                 Inl (NotAuthorized ''Not authorized to view this thread'')
               else Inr (th, getMessagesByThread s i)))"

text \<open>
  The response that \<open>sendMessage\<close> saves is a template literal with \<open>args.content\<close>
  between two fixed parts.
\<close>

definition aiResponsePrefix :: string where
  "aiResponsePrefix =
     ''I'm your task assistant. I received your message: '' @ [CHR 0x22]"

definition aiResponseSuffix :: string where
  "aiResponseSuffix =
     [CHR 0x22] @ ''.\<newline>\<newline>In a full implementation, I would:\<newline>'' @
     ''- Analyze your message for task-related insights\<newline>'' @
     ''- Provide helpful suggestions for task management\<newline>'' @
     ''- Help you break down complex tasks\<newline>'' @
     ''- Offer productivity tips\<newline>\<newline>'' @
     ''This is a placeholder response. To enable full AI functionality, '' @
     ''ensure your AI provider (OpenAI or Anthropic) is properly configured.''"

definition aiResponseContent :: "ustring \<Rightarrow> ustring" where
  "aiResponseContent txt = ascii aiResponsePrefix @ txt @ ascii aiResponseSuffix"

definition sendMessage :: "ctx \<Rightarrow> nat \<Rightarrow> ustring \<Rightarrow> db \<Rightarrow> (error + nat \<times> nat) \<times> db" where
  "sendMessage c tid txt s =
     (case authUser c of
        None \<Rightarrow> (Inl NotAuthenticated, s)
      | Some user \<Rightarrow>
          if \<not> ok (limit c ''sendMessage'' user) then
            (Inl (rateLimitError (limit c ''sendMessage'' user)), s)
          else if \<not> isValidMessageContent txt then
            (Inl (ValidationFailed
                    ''Message content must be between 1 and 10,000 characters''), s)
          else
            (case getThreadById s tid of
               None \<Rightarrow> (Inl (NotFound ''Thread not found''), s)
             | Some th \<Rightarrow>
                 if userId th \<noteq> user then
                   (Inl (NotAuthorized ''Not authorized to send messages in this thread''), s)
                 else
                   (case createMessage c tid user User txt s of
                      (userMessage, s1) \<Rightarrow>
                        (case createMessage c tid user Assistant (aiResponseContent txt) s1 of
                           (aiMessage, s2) \<Rightarrow> (Inr (userMessage, aiMessage), s2)))))"

definition updateThread :: "ctx \<Rightarrow> nat \<Rightarrow> ustring \<Rightarrow> db \<Rightarrow> (error + unit) \<times> db" where
  "updateThread c i targ s =
     (case authUser c of
        None \<Rightarrow> (Inl NotAuthenticated, s)
      | Some user \<Rightarrow>
          (case getThreadById s i of
             None \<Rightarrow> (Inl (NotFound ''Thread not found''), s)
           | Some th \<Rightarrow>
               if userId th \<noteq> user then
                 (Inl (NotAuthorized ''Not authorized to update this thread''), s)
               else (Inr (), updateThread_db c i targ s)))"

definition archiveThread :: "ctx \<Rightarrow> nat \<Rightarrow> db \<Rightarrow> (error + unit) \<times> db" where
  "archiveThread c i s =
     (case authUser c of
        None \<Rightarrow> (Inl NotAuthenticated, s)
      | Some user \<Rightarrow>
          (case getThreadById s i of
             None \<Rightarrow> (Inl (NotFound ''Thread not found''), s)
           | Some th \<Rightarrow>
               if userId th \<noteq> user then
                 (Inl (NotAuthorized ''Not authorized to archive this thread''), s)
               else (Inr (), archiveThread_db c i s)))"

definition deleteThread :: "ctx \<Rightarrow> nat \<Rightarrow> db \<Rightarrow> (error + unit) \<times> db" where
  "deleteThread c i s =
     (case authUser c of
        None \<Rightarrow> (Inl NotAuthenticated, s)
      | Some user \<Rightarrow>
          (case getThreadById s i of
             None \<Rightarrow> (Inl (NotFound ''Thread not found''), s)
           | Some th \<Rightarrow>
               if userId th \<noteq> user then
                 (Inl (NotAuthorized ''Not authorized to delete this thread''), s)
               else (Inr (), deleteThread_db i (deleteMessagesByThread i s))))"

section \<open>Argument validators\<close>

text \<open>
  A registered function validates its arguments before its handler runs, hence before
  authentication.  A string argument is typed as a string here.  An id argument is what
  the client sends for it: an id of some table, or a string that is no id; the validator
  \<open>v.id(table)\<close> accepts the ids of its table only.
\<close>

datatype table = TasksTable | ThreadsTable | MessagesTable

datatype id_arg = IdOf table nat | NotAnId

definition v_id :: "table \<Rightarrow> id_arg \<Rightarrow> nat option" where
  "v_id tbl a =
     (case a of
        IdOf tbl' n \<Rightarrow> if tbl' = tbl then Some n else None
      | NotAnId \<Rightarrow> None)"

text \<open>
  The registered functions that take an id: the validator, then the handler.  (\<open>create\<close>
  and \<open>createThread\<close> take strings only.)
\<close>

definition get_task_query :: "ctx \<Rightarrow> id_arg \<Rightarrow> db \<Rightarrow> error + task" where
  "get_task_query c a s =
     (case v_id TasksTable a of
        None \<Rightarrow> Inl ArgumentValidationError
      | Some i \<Rightarrow> get_task c i s)"

definition update_mutation ::
  "ctx \<Rightarrow> id_arg \<Rightarrow> ustring option \<Rightarrow> ustring option \<Rightarrow> db \<Rightarrow> (error + unit) \<times> db" where
  "update_mutation c a targ darg s =
     (case v_id TasksTable a of
        None \<Rightarrow> (Inl ArgumentValidationError, s)
      | Some i \<Rightarrow> update c i targ darg s)"

definition complete_mutation :: "ctx \<Rightarrow> id_arg \<Rightarrow> db \<Rightarrow> (error + unit) \<times> db" where
  "complete_mutation c a s =
     (case v_id TasksTable a of
        None \<Rightarrow> (Inl ArgumentValidationError, s)
      | Some i \<Rightarrow> complete c i s)"

definition reactivate_mutation :: "ctx \<Rightarrow> id_arg \<Rightarrow> db \<Rightarrow> (error + unit) \<times> db" where
  "reactivate_mutation c a s =
     (case v_id TasksTable a of
        None \<Rightarrow> (Inl ArgumentValidationError, s)
      | Some i \<Rightarrow> reactivate c i s)"

definition remove_mutation :: "ctx \<Rightarrow> id_arg \<Rightarrow> db \<Rightarrow> (error + unit) \<times> db" where
  "remove_mutation c a s =
     (case v_id TasksTable a of
        None \<Rightarrow> (Inl ArgumentValidationError, s)
      | Some i \<Rightarrow> remove c i s)"

definition permanentlyDelete_mutation :: "ctx \<Rightarrow> id_arg \<Rightarrow> db \<Rightarrow> (error + unit) \<times> db" where
  "permanentlyDelete_mutation c a s =
     (case v_id TasksTable a of
        None \<Rightarrow> (Inl ArgumentValidationError, s)
      | Some i \<Rightarrow> permanentlyDelete c i s)"

definition getThread_query ::
  "ctx \<Rightarrow> id_arg \<Rightarrow> db \<Rightarrow> error + thread \<times> message list" where
  "getThread_query c a s =
     (case v_id ThreadsTable a of
        None \<Rightarrow> Inl ArgumentValidationError
      | Some i \<Rightarrow> getThread c i s)"

definition sendMessage_mutation ::
  "ctx \<Rightarrow> id_arg \<Rightarrow> ustring \<Rightarrow> db \<Rightarrow> (error + nat \<times> nat) \<times> db" where
  "sendMessage_mutation c a txt s =
     (case v_id ThreadsTable a of
        None \<Rightarrow> (Inl ArgumentValidationError, s)
      | Some i \<Rightarrow> sendMessage c i txt s)"

definition updateThread_mutation ::
  "ctx \<Rightarrow> id_arg \<Rightarrow> ustring \<Rightarrow> db \<Rightarrow> (error + unit) \<times> db" where
  "updateThread_mutation c a targ s =
     (case v_id ThreadsTable a of
        None \<Rightarrow> (Inl ArgumentValidationError, s)
      | Some i \<Rightarrow> updateThread c i targ s)"

definition archiveThread_mutation :: "ctx \<Rightarrow> id_arg \<Rightarrow> db \<Rightarrow> (error + unit) \<times> db" where
  "archiveThread_mutation c a s =
     (case v_id ThreadsTable a of
        None \<Rightarrow> (Inl ArgumentValidationError, s)
      | Some i \<Rightarrow> archiveThread c i s)"

definition deleteThread_mutation :: "ctx \<Rightarrow> id_arg \<Rightarrow> db \<Rightarrow> (error + unit) \<times> db" where
  "deleteThread_mutation c a s =
     (case v_id ThreadsTable a of
        None \<Rightarrow> (Inl ArgumentValidationError, s)
      | Some i \<Rightarrow> deleteThread c i s)"

section \<open>Reachable stores\<close>

text \<open>
  The mutations a client can call with arguments that their validators accept, and
  the store each leaves; a call that its validator rejects leaves the store as it is.
  A store is reachable when a sequence of such calls, by any callers, leads to it from
  the empty store.
\<close>

datatype request =
    Create ustring "ustring option"
  | Update nat "ustring option" "ustring option"
  | Complete nat
  | Reactivate nat
  | Remove nat
  | PermanentlyDelete nat
  | CreateThread "ustring option"
  | SendMessage nat ustring
  | UpdateThread nat ustring
  | ArchiveThread nat
  | DeleteThread nat

fun handle :: "ctx \<Rightarrow> request \<Rightarrow> db \<Rightarrow> db" where
  "handle c (Create t d) s = snd (create c t d s)"
| "handle c (Update i t d) s = snd (update c i t d s)"
| "handle c (Complete i) s = snd (complete c i s)"
| "handle c (Reactivate i) s = snd (reactivate c i s)"
| "handle c (Remove i) s = snd (remove c i s)"
| "handle c (PermanentlyDelete i) s = snd (permanentlyDelete c i s)"
| "handle c (CreateThread t) s = snd (createThread c t s)"
| "handle c (SendMessage i txt) s = snd (sendMessage c i txt s)"
| "handle c (UpdateThread i t) s = snd (updateThread c i t s)"
| "handle c (ArchiveThread i) s = snd (archiveThread c i s)"
| "handle c (DeleteThread i) s = snd (deleteThread c i s)"

inductive reachable :: "db \<Rightarrow> bool" where
  init: "reachable empty_db"
| step: "reachable s \<Longrightarrow> reachable (handle c r s)"

section \<open>Example callers\<close>

text \<open>
  Two authenticated callers whom the rate limiter lets through, a caller who is not
  authenticated, and Bob again when the rate limiter refuses him under every name.
\<close>

definition alice :: ctx where
  "alice = \<lparr>authUser = Some ''alice'', limit = (\<lambda>_ _. \<lparr>ok = True, retryAfter = 0\<rparr>),
             now = 1000\<rparr>"

definition bob :: ctx where
  "bob = \<lparr>authUser = Some ''bob'', limit = (\<lambda>_ _. \<lparr>ok = True, retryAfter = 0\<rparr>),
           now = 2000\<rparr>"



section \<open>An invariant of the reachable stores\<close>

text \<open>
  Document ids and creation stamps are below the store's counters, and every table lists
  its documents by increasing creation stamp.
\<close>

definition rows_inv :: "nat \<Rightarrow> nat \<Rightarrow> ('a doc_scheme) list \<Rightarrow> bool" where
  "rows_inv n k rows \<longleftrightarrow>
     (\<forall>r \<in> set rows. doc_id r < n \<and> creationTime r < k) \<and>
     sorted_wrt (<) (map creationTime rows)"

definition store_inv :: "db \<Rightarrow> bool" where
  "store_inv s \<longleftrightarrow>
     rows_inv (next_id s) (clock s) (tasks s) \<and>
     rows_inv (next_id s) (clock s) (threads s) \<and>
     rows_inv (next_id s) (clock s) (messages s)"

section \<open>An example store\<close>

text \<open>
  Alice creates two tasks and a thread, and sends one message in the thread.
\<close>

definition example_store :: db where
  "example_store =
     handle alice (SendMessage 2 (ascii ''hi''))
       (handle alice (CreateThread None)
         (handle alice (Create (ascii ''b'') None)
           (handle alice (Create (ascii ''a'') None) empty_db)))"

section \<open>A second example store\<close>

text \<open>Bob creates a task and a thread.\<close>

definition bob_store :: db where
  "bob_store =
     handle bob (CreateThread None)
       (handle bob (Create (ascii ''Buy milk'') None) empty_db)"

section \<open>Example stores with one task\<close>

text \<open>
  Alice creates the task \<open>Buy milk\<close>; in \<open>deleted_store\<close> she then removes it; in
  \<open>completed_deleted_store\<close> she completes it and then removes it.
\<close>

definition milk_store :: db where
  "milk_store = handle alice (Create (ascii ''Buy milk'') None) empty_db"

definition deleted_store :: db where
  "deleted_store = handle alice (Remove 0) milk_store"

definition completed_deleted_store :: db where
  "completed_deleted_store = handle alice (Remove 0) (handle alice (Complete 0) milk_store)"

section \<open>The checks of the mutations\<close>












section \<open>Title validation at the boundary\<close>

lemma trim_nonempty_iff: "length (trim t) > 0 \<longleftrightarrow> (\<exists>c \<in> set t. \<not> isWhiteSpace c)"
proof -
  have "trim t \<noteq> [] \<longleftrightarrow> (\<exists>c \<in> set (dropWhile isWhiteSpace t). \<not> isWhiteSpace c)"
    by (simp add: trim_def dropWhile_eq_Nil_conv)
  also have "\<dots> \<longleftrightarrow> (\<exists>c \<in> set t. \<not> isWhiteSpace c)"
  proof
    assume "\<exists>c \<in> set (dropWhile isWhiteSpace t). \<not> isWhiteSpace c"
    then show "\<exists>c \<in> set t. \<not> isWhiteSpace c"
      using set_dropWhileD by fastforce
  next
    assume "\<exists>c \<in> set t. \<not> isWhiteSpace c"
    then have ne: "dropWhile isWhiteSpace t \<noteq> []"
      by (simp add: dropWhile_eq_Nil_conv)
    then have "\<not> isWhiteSpace (hd (dropWhile isWhiteSpace t))"
      by (rule hd_dropWhile)
    with ne show "\<exists>c \<in> set (dropWhile isWhiteSpace t). \<not> isWhiteSpace c"
      using hd_in_set by blast
  qed
  finally show ?thesis by simp
qed

lemma create_invalid_title:
  "\<not> isValidTaskTitle t \<Longrightarrow> authUser c = Some u \<Longrightarrow> ok (limit c ''createTask'' u) \<Longrightarrow>
   create c t d s =
     (Inl (ValidationFailed ''Task title must be between 1 and 200 characters''), s)"
  by (simp add: create_def validateAndSanitizeTask_def)

lemma create_valid:
  "isValidTaskTitle t \<Longrightarrow> isValidTaskDescription d \<Longrightarrow> authUser c = Some u \<Longrightarrow>
   ok (limit c ''createTask'' u) \<Longrightarrow>
   create c t d s =
     (Inr (next_id s),
      snd (createTask c u (sanitizeTaskTitle t) (sanitizeTaskDescription d) s))"
  by (simp add: create_def validateAndSanitizeTask_def createTask_def)

text \<open>
  C6, as stated, fails: a title of 200 code units that are all white space is rejected,
  because \<open>isValidTaskTitle\<close> also requires the trimmed title to be non-empty.
\<close>

theorem title_boundary_counterexample:
  "length (replicate 200 (0x20 :: 16 word)) = 200 \<and> \<not> isValidTaskTitle (replicate 200 0x20)"
  by (simp add: isValidTaskTitle_def trim_def isWhiteSpace_def)

text \<open>
  C6 (amended): every title of length 201 is rejected by \<open>isValidTaskTitle\<close>, and the
  create endpoint then fails with the title message; a title of length 200 is accepted
  exactly when it has a character that is not white space, and the create endpoint then
  succeeds for it (given a valid description).  The caller is authenticated and not
  rate-limited.
\<close>

theorem title_boundary:
  assumes "authUser c = Some u" and "ok (limit c ''createTask'' u)"
  shows "(length t = 201 \<longrightarrow>
            \<not> isValidTaskTitle t \<and>
            create c t d s =
              (Inl (ValidationFailed ''Task title must be between 1 and 200 characters''), s))
       \<and> (length t = 200 \<longrightarrow>
            (isValidTaskTitle t \<longleftrightarrow> (\<exists>x \<in> set t. \<not> isWhiteSpace x)) \<and>
            ((\<exists>x \<in> set t. \<not> isWhiteSpace x) \<and> isValidTaskDescription d \<longrightarrow>
               fst (create c t d s) = Inr (next_id s)))"
proof (intro conjI impI)
  assume l: "length t = 201"
  then show n: "\<not> isValidTaskTitle t" by (simp add: isValidTaskTitle_def)
  from n assms show "create c t d s =
              (Inl (ValidationFailed ''Task title must be between 1 and 200 characters''), s)"
    by (rule create_invalid_title)
next
  assume l: "length t = 200"
  then show v: "isValidTaskTitle t \<longleftrightarrow> (\<exists>x \<in> set t. \<not> isWhiteSpace x)"
    using trim_nonempty_iff [of t] by (simp add: isValidTaskTitle_def)
  assume "(\<exists>x \<in> set t. \<not> isWhiteSpace x) \<and> isValidTaskDescription d"
  with v have "isValidTaskTitle t" "isValidTaskDescription d" by simp_all
  then show "fst (create c t d s) = Inr (next_id s)"
    using assms by (simp add: create_valid)
qed

theorem title_boundary_witness:
  "\<not> isValidTaskTitle (replicate 201 0x41)
   \<and> create alice (replicate 201 0x41) None empty_db =
       (Inl (ValidationFailed ''Task title must be between 1 and 200 characters''), empty_db)
   \<and> isValidTaskTitle (replicate 200 0x41)
   \<and> fst (create alice (replicate 200 0x41) None empty_db) = Inr 0"
proof -
  have a: "authUser alice = Some ''alice''" and b: "ok (limit alice ''createTask'' ''alice'')"
    by (simp_all add: alice_def)
  have c: "\<exists>x \<in> set (replicate 200 (0x41 :: 16 word)). \<not> isWhiteSpace x"
    by (simp add: isWhiteSpace_def)
  have d: "isValidTaskDescription None" by (simp add: isValidTaskDescription_def)
  show ?thesis
    using title_boundary [OF a b, of "replicate 201 0x41" None empty_db]
      title_boundary [OF a b, of "replicate 200 0x41" None empty_db] c d
    by (simp add: empty_db_def)
qed

section \<open>Store primitives and the invariant\<close>


lemma db_get_None_iff: "db_get i rows = None \<longleftrightarrow> (\<forall>r \<in> set rows. doc_id r \<noteq> i)"
  by (auto simp: db_get_def find_None_iff)

lemma db_get_patch:
  "(\<And>r. doc_id (f r) = doc_id r) \<Longrightarrow> db_get i (db_patch i f rows) = map_option f (db_get i rows)"
  by (induction rows) (simp_all add: db_get_def db_patch_def)

lemma db_get_delete: "db_get i (db_delete i rows) = None"
  by (simp add: db_get_None_iff db_delete_def)

lemma db_get_append_fresh:
  "\<forall>r \<in> set rows. doc_id r \<noteq> doc_id x \<Longrightarrow> db_get (doc_id x) (rows @ [x]) = Some x"
  by (induction rows) (simp_all add: db_get_def)

lemma rows_inv_Suc: "rows_inv n k rows \<Longrightarrow> rows_inv (Suc n) (Suc k) rows"
  by (fastforce simp: rows_inv_def)

lemma rows_inv_patch:
  "rows_inv n k rows \<Longrightarrow> (\<And>r. doc_id (f r) = doc_id r \<and> creationTime (f r) = creationTime r) \<Longrightarrow>
   rows_inv n k (db_patch i f rows)"
proof -
  assume a: "rows_inv n k rows" and f: "\<And>r. doc_id (f r) = doc_id r \<and> creationTime (f r) = creationTime r"
  have "map creationTime (db_patch i f rows) = map creationTime rows"
    by (simp add: db_patch_def f)
  moreover have "\<forall>r \<in> set (db_patch i f rows). doc_id r < n \<and> creationTime r < k"
    using a f by (auto simp: rows_inv_def db_patch_def)
  ultimately show ?thesis using a by (simp add: rows_inv_def)
qed

lemma rows_inv_delete: "rows_inv n k rows \<Longrightarrow> rows_inv n k (db_delete i rows)"
  by (auto simp: rows_inv_def db_delete_def sorted_wrt_map intro: sorted_wrt_filter)

lemma rows_inv_filter: "rows_inv n k rows \<Longrightarrow> rows_inv n k (filter p rows)"
  by (auto simp: rows_inv_def sorted_wrt_map intro: sorted_wrt_filter)

lemma rows_inv_insert:
  "rows_inv n k rows \<Longrightarrow> doc_id x = n \<Longrightarrow> creationTime x = k \<Longrightarrow>
   rows_inv (Suc n) (Suc k) (rows @ [x])"
  by (fastforce simp: rows_inv_def sorted_wrt_append)

lemma fold_deleteMessage:
  "fold (\<lambda>m s'. deleteMessage (doc_id m) s') ms s =
     s\<lparr>messages := filter (\<lambda>m. doc_id m \<notin> doc_id ` set ms) (messages s)\<rparr>"
proof (induction ms arbitrary: s)
  case Nil
  then show ?case by simp
next
  case (Cons m ms)
  have "filter (\<lambda>x. doc_id x \<notin> doc_id ` set ms) (db_delete (doc_id m) (messages s)) =
        filter (\<lambda>x. doc_id x \<notin> doc_id ` set (m # ms)) (messages s)"
    by (simp add: db_delete_def conj_commute)
  with Cons show ?case by (simp add: deleteMessage_def)
qed

lemma deleteMessagesByThread_eq:
  "deleteMessagesByThread tid s =
     s\<lparr>messages := filter (\<lambda>m. doc_id m \<notin> doc_id ` {x \<in> set (messages s). threadId x = tid})
                     (messages s)\<rparr>"
  by (simp add: deleteMessagesByThread_def fold_deleteMessage collect_asc_def)

lemma store_inv_createTask: "store_inv s \<Longrightarrow> createTask c u t d s = (i, s') \<Longrightarrow> store_inv s'"
  by (auto simp: store_inv_def createTask_def rows_inv_insert rows_inv_Suc)

lemma store_inv_createMessage: "store_inv s \<Longrightarrow> createMessage c i u r x s = (j, s') \<Longrightarrow> store_inv s'"
  by (auto simp: store_inv_def createMessage_def rows_inv_insert rows_inv_Suc)

lemma store_inv_createThread_db: "store_inv s \<Longrightarrow> createThread_db c u t s = (i, s') \<Longrightarrow> store_inv s'"
  by (auto simp: store_inv_def createThread_db_def rows_inv_insert rows_inv_Suc)

lemma store_inv_task_patches:
  "store_inv s \<Longrightarrow> store_inv (completeTask c i s)"
  "store_inv s \<Longrightarrow> store_inv (reactivateTask c i s)"
  "store_inv s \<Longrightarrow> store_inv (updateTask c i t d s)"
  "store_inv s \<Longrightarrow> store_inv (softDeleteTask c i s)"
  "store_inv s \<Longrightarrow> store_inv (hardDeleteTask i s)"
  by (simp_all add: store_inv_def completeTask_def reactivateTask_def updateTask_def
        softDeleteTask_def hardDeleteTask_def rows_inv_patch rows_inv_delete)

lemma store_inv_thread_ops:
  "store_inv s \<Longrightarrow> store_inv (updateThread_db c i t s)"
  "store_inv s \<Longrightarrow> store_inv (archiveThread_db c i s)"
  "store_inv s \<Longrightarrow> store_inv (deleteThread_db i s)"
  "store_inv s \<Longrightarrow> store_inv (deleteMessagesByThread i s)"
  by (simp_all add: store_inv_def updateThread_db_def archiveThread_db_def deleteThread_db_def
        deleteMessagesByThread_eq rows_inv_patch rows_inv_delete rows_inv_filter)

lemma store_inv_handle: "store_inv s \<Longrightarrow> store_inv (handle c r s)"
  by (cases r)
    (auto simp: create_def update_def complete_def reactivate_def remove_def
      permanentlyDelete_def createThread_def sendMessage_def updateThread_def
      archiveThread_def deleteThread_def store_inv_task_patches store_inv_thread_ops
      split: option.splits sum.splits prod.splits
      intro: store_inv_createTask store_inv_createMessage store_inv_createThread_db)

lemma store_inv_empty: "store_inv empty_db"
  by (simp add: store_inv_def rows_inv_def empty_db_def)

lemma reachable_store_inv: "reachable s \<Longrightarrow> store_inv s"
  by (induction rule: reachable.induct) (simp_all add: store_inv_empty store_inv_handle)


section \<open>Evaluating the example store\<close>

lemmas endpoint_defs =
  create_def update_def complete_def reactivate_def remove_def permanentlyDelete_def
  createThread_def sendMessage_def updateThread_def archiveThread_def deleteThread_def
  list_tasks_def listActive_def listCompleted_def get_task_def getThread_def

lemmas layer_defs =
  createTask_def getTaskById_def getTasksByUser_def getTasksByUserAndStatus_def
  getActiveTasksByUser_def getCompletedTasksByUser_def completeTask_def reactivateTask_def
  updateTask_def softDeleteTask_def hardDeleteTask_def createMessage_def
  getMessagesByThread_def deleteMessage_def deleteMessagesByThread_def createThread_db_def
  getThreadById_def updateThread_db_def archiveThread_db_def deleteThread_db_def
  db_get_def db_patch_def db_delete_def collect_asc_def collect_desc_def

lemmas helper_defs =
  validateAndSanitizeTask_def isValidTaskTitle_def isValidTaskDescription_def
  isValidMessageContent_def sanitizeTaskTitle_def sanitizeTaskDescription_def
  trim_def slice0_def isWhiteSpace_def ascii_def rateLimitError_def

section \<open>Order of the lists\<close>

lemma example_store_eq:
  "example_store =
     \<lparr>tasks =
        [\<lparr>doc_id = 0, creationTime = 0, userId = ''alice'', createdAt = 1000,
          title = ascii ''a'', description = None, status = Active, completedAt = None,
          updatedAt = 1000\<rparr>,
         \<lparr>doc_id = 1, creationTime = 1, userId = ''alice'', createdAt = 1000,
          title = ascii ''b'', description = None, status = Active, completedAt = None,
          updatedAt = 1000\<rparr>],
      threads =
        [\<lparr>doc_id = 2, creationTime = 2, userId = ''alice'', createdAt = 1000,
          thread_title = None, thread_status = ThreadActive, thread_updatedAt = 1000\<rparr>],
      messages =
        [\<lparr>doc_id = 3, creationTime = 3, userId = ''alice'', createdAt = 1000,
          threadId = 2, role = User, content = ascii ''hi''\<rparr>,
         \<lparr>doc_id = 4, creationTime = 4, userId = ''alice'', createdAt = 1000,
          threadId = 2, role = Assistant, content = aiResponseContent (ascii ''hi'')\<rparr>],
      next_id = 5, clock = 5\<rparr>"
  by (simp add: example_store_def alice_def empty_db_def endpoint_defs layer_defs helper_defs)

lemma reachable_example_store: "reachable example_store"
  unfolding example_store_def by (intro reachable.step reachable.init)

text \<open>
  C9: for a reachable store and an authenticated caller, \<open>list\<close>, \<open>listActive\<close> and
  \<open>listCompleted\<close> return exactly the caller's tasks (of the status asked for), later
  created ones first; \<open>getThread\<close> on a thread of the caller returns exactly the
  thread's messages, earlier created ones first.
\<close>

theorem list_order:
  assumes "reachable s" and "authUser c = Some u"
  shows "(\<exists>xs. list_tasks c s = Inr xs
            \<and> sorted_wrt (\<lambda>a b. creationTime a > creationTime b) xs
            \<and> set xs = {t \<in> set (tasks s). userId t = u})
       \<and> (\<exists>xs. listActive c s = Inr xs
            \<and> sorted_wrt (\<lambda>a b. creationTime a > creationTime b) xs
            \<and> set xs = {t \<in> set (tasks s). userId t = u \<and> status t = Active})
       \<and> (\<exists>xs. listCompleted c s = Inr xs
            \<and> sorted_wrt (\<lambda>a b. creationTime a > creationTime b) xs
            \<and> set xs = {t \<in> set (tasks s). userId t = u \<and> status t = Completed})
       \<and> (\<forall>i th. getThreadById s i = Some th \<and> userId th = u \<longrightarrow>
            (\<exists>ms. getThread c i s = Inr (th, ms)
               \<and> sorted_wrt (\<lambda>a b. creationTime a < creationTime b) ms
               \<and> set ms = {m \<in> set (messages s). threadId m = i}))"
proof -
  from assms(1) have inv: "store_inv s" by (rule reachable_store_inv)
  then have t: "sorted_wrt (\<lambda>a b. creationTime a < creationTime b) (tasks s)"
    and m: "sorted_wrt (\<lambda>a b. creationTime a < creationTime b) (messages s)"
    by (simp_all add: store_inv_def rows_inv_def sorted_wrt_map)
  have desc: "sorted_wrt (\<lambda>a b. creationTime a > creationTime b) (collect_desc p (tasks s))" for p
    unfolding collect_desc_def sorted_wrt_rev using t by (rule sorted_wrt_filter)
  have asc: "sorted_wrt (\<lambda>a b. creationTime a < creationTime b) (collect_asc p (messages s))" for p
    unfolding collect_asc_def using m by (rule sorted_wrt_filter)
  have 1: "\<exists>xs. list_tasks c s = Inr xs
            \<and> sorted_wrt (\<lambda>a b. creationTime a > creationTime b) xs
            \<and> set xs = {t \<in> set (tasks s). userId t = u}"
    using assms(2) desc by (simp add: list_tasks_def getTasksByUser_def) (simp add: collect_desc_def)
  have 2: "\<exists>xs. listActive c s = Inr xs
            \<and> sorted_wrt (\<lambda>a b. creationTime a > creationTime b) xs
            \<and> set xs = {t \<in> set (tasks s). userId t = u \<and> status t = Active}"
    using assms(2) desc
    by (simp add: listActive_def getActiveTasksByUser_def getTasksByUserAndStatus_def)
       (simp add: collect_desc_def)
  have 3: "\<exists>xs. listCompleted c s = Inr xs
            \<and> sorted_wrt (\<lambda>a b. creationTime a > creationTime b) xs
            \<and> set xs = {t \<in> set (tasks s). userId t = u \<and> status t = Completed}"
    using assms(2) desc
    by (simp add: listCompleted_def getCompletedTasksByUser_def getTasksByUserAndStatus_def)
       (simp add: collect_desc_def)
  have 4: "\<exists>ms. getThread c i s = Inr (th, ms)
               \<and> sorted_wrt (\<lambda>a b. creationTime a < creationTime b) ms
               \<and> set ms = {m \<in> set (messages s). threadId m = i}"
    if "getThreadById s i = Some th \<and> userId th = u" for i th
    using assms(2) that asc by (simp add: getThread_def getMessagesByThread_def) (simp add: collect_asc_def)
  from 1 2 3 4 show ?thesis by blast
qed

theorem list_order_witness:
  "(\<exists>xs. list_tasks alice example_store = Inr xs
            \<and> sorted_wrt (\<lambda>a b. creationTime a > creationTime b) xs
            \<and> map doc_id xs = [1, 0])
   \<and> (\<exists>th ms. getThread alice 2 example_store = Inr (th, ms)
            \<and> sorted_wrt (\<lambda>a b. creationTime a < creationTime b) ms
            \<and> map doc_id ms = [3, 4])"
proof -
  have a: "authUser alice = Some ''alice''" by (simp add: alice_def)
  have g: "getThreadById example_store 2 =
      Some \<lparr>doc_id = 2, creationTime = 2, userId = ''alice'', createdAt = 1000,
          thread_title = None, thread_status = ThreadActive, thread_updatedAt = 1000\<rparr>"
    by (simp add: example_store_eq getThreadById_def db_get_def)
  have l: "list_tasks alice example_store = Inr (rev (tasks example_store))"
    by (simp add: example_store_eq list_tasks_def alice_def getTasksByUser_def collect_desc_def)
  have m: "getThread alice 2 example_store =
      Inr (\<lparr>doc_id = 2, creationTime = 2, userId = ''alice'', createdAt = 1000,
          thread_title = None, thread_status = ThreadActive, thread_updatedAt = 1000\<rparr>,
          messages example_store)"
    by (simp add: example_store_eq getThread_def alice_def getThreadById_def db_get_def
         getMessagesByThread_def collect_asc_def)
  from list_order [OF reachable_example_store a] g l m show ?thesis
    by (auto simp: example_store_eq)
qed

section \<open>Ownership and the order of the checks\<close>

lemma bob_store_eq:
  "bob_store =
     \<lparr>tasks =
        [\<lparr>doc_id = 0, creationTime = 0, userId = ''bob'', createdAt = 2000,
          title = ascii ''Buy milk'', description = None, status = Active,
          completedAt = None, updatedAt = 2000\<rparr>],
      threads =
        [\<lparr>doc_id = 1, creationTime = 1, userId = ''bob'', createdAt = 2000,
          thread_title = None, thread_status = ThreadActive, thread_updatedAt = 2000\<rparr>],
      messages = [],
      next_id = 2, clock = 2\<rparr>"
  by (simp add: bob_store_def bob_def empty_db_def endpoint_defs layer_defs helper_defs)

lemma reachable_bob_store: "reachable bob_store"
  unfolding bob_store_def by (intro reachable.step reachable.init)

lemma bob_store_task:
  "getTaskById bob_store 0 =
     Some \<lparr>doc_id = 0, creationTime = 0, userId = ''bob'', createdAt = 2000,
          title = ascii ''Buy milk'', description = None, status = Active,
          completedAt = None, updatedAt = 2000\<rparr>"
  by (simp add: bob_store_eq getTaskById_def db_get_def)

lemma bob_store_thread:
  "getThreadById bob_store 1 =
     Some \<lparr>doc_id = 1, creationTime = 1, userId = ''bob'', createdAt = 2000,
          thread_title = None, thread_status = ThreadActive, thread_updatedAt = 2000\<rparr>"
  by (simp add: bob_store_eq getThreadById_def db_get_def)

text \<open>
  C4: an authenticated caller who is not rate-limited and names a task of another user
  gets the not-authorized error of the operation from \<open>update\<close>, \<open>complete\<close>,
  \<open>reactivate\<close>, \<open>remove\<close> and \<open>permanentlyDelete\<close>, and the store is left as it was.
\<close>

theorem not_owner_rejected:
  assumes "authUser c = Some u" and "getTaskById s i = Some t" and "userId t \<noteq> u"
  shows "(ok (limit c ''updateTask'' u) \<longrightarrow>
            update c i targ darg s =
              (Inl (NotAuthorized ''Not authorized to update this task''), s)
          \<and> complete c i s =
              (Inl (NotAuthorized ''Not authorized to complete this task''), s)
          \<and> reactivate c i s =
              (Inl (NotAuthorized ''Not authorized to reactivate this task''), s))
       \<and> (ok (limit c ''deleteTask'' u) \<longrightarrow>
            remove c i s =
              (Inl (NotAuthorized ''Not authorized to delete this task''), s)
          \<and> permanentlyDelete c i s =
              (Inl (NotAuthorized ''Not authorized to permanently delete this task''), s))"
  using assms
  by (simp add: update_def complete_def reactivate_def remove_def permanentlyDelete_def)

theorem not_owner_rejected_witness:
  "update alice 0 (Some (ascii ''Mine'')) None bob_store =
      (Inl (NotAuthorized ''Not authorized to update this task''), bob_store)
   \<and> complete alice 0 bob_store =
      (Inl (NotAuthorized ''Not authorized to complete this task''), bob_store)
   \<and> reactivate alice 0 bob_store =
      (Inl (NotAuthorized ''Not authorized to reactivate this task''), bob_store)
   \<and> remove alice 0 bob_store =
      (Inl (NotAuthorized ''Not authorized to delete this task''), bob_store)
   \<and> permanentlyDelete alice 0 bob_store =
      (Inl (NotAuthorized ''Not authorized to permanently delete this task''), bob_store)"
proof -
  have a: "authUser alice = Some ''alice''" by (simp add: alice_def)
  have r: "ok (limit alice ''updateTask'' ''alice'')" "ok (limit alice ''deleteTask'' ''alice'')"
    by (simp_all add: alice_def)
  show ?thesis
    using not_owner_rejected [OF a bob_store_task, of "Some (ascii ''Mine'')" None] r
    by simp
qed


lemma mutation_reachable:
  assumes "reachable s"
  shows "reachable (snd (update_mutation c a targ darg s))"
    and "reachable (snd (complete_mutation c a s))"
    and "reachable (snd (reactivate_mutation c a s))"
    and "reachable (snd (remove_mutation c a s))"
    and "reachable (snd (permanentlyDelete_mutation c a s))"
    and "reachable (snd (sendMessage_mutation c a txt s))"
    and "reachable (snd (updateThread_mutation c a t s))"
    and "reachable (snd (archiveThread_mutation c a s))"
    and "reachable (snd (deleteThread_mutation c a s))"
  using assms
    reachable.step [OF assms, of c "Update i targ darg" for i]
    reachable.step [OF assms, of c "Complete i" for i]
    reachable.step [OF assms, of c "Reactivate i" for i]
    reachable.step [OF assms, of c "Remove i" for i]
    reachable.step [OF assms, of c "PermanentlyDelete i" for i]
    reachable.step [OF assms, of c "SendMessage i txt" for i]
    reachable.step [OF assms, of c "UpdateThread i t" for i]
    reachable.step [OF assms, of c "ArchiveThread i" for i]
    reachable.step [OF assms, of c "DeleteThread i" for i]
  by (simp_all add: update_mutation_def complete_mutation_def reactivate_mutation_def
        remove_mutation_def permanentlyDelete_mutation_def sendMessage_mutation_def
        updateThread_mutation_def archiveThread_mutation_def deleteThread_mutation_def
        split: option.splits)








section \<open>Deleting a thread\<close>

text \<open>
  C5: when the caller owns the thread, \<open>deleteThread\<close> succeeds, and in the store it
  leaves no message has the thread's id as its \<open>threadId\<close> and no thread has that id.
\<close>

theorem deleteThread_cascade:
  assumes "authUser c = Some u" and "getThreadById s i = Some th" and "userId th = u"
  shows "\<exists>s'. deleteThread c i s = (Inr (), s')
           \<and> (\<forall>m \<in> set (messages s'). threadId m \<noteq> i)
           \<and> (\<forall>x \<in> set (threads s'). doc_id x \<noteq> i)
           \<and> getMessagesByThread s' i = []
           \<and> getThreadById s' i = None"
proof -
  let ?s' = "deleteThread_db i (deleteMessagesByThread i s)"
  have r: "deleteThread c i s = (Inr (), ?s')"
    using assms by (simp add: deleteThread_def)
  have m: "\<forall>m \<in> set (messages ?s'). threadId m \<noteq> i"
    by (auto simp: deleteThread_db_def deleteMessagesByThread_eq)
  have t: "\<forall>x \<in> set (threads ?s'). doc_id x \<noteq> i"
    by (simp add: deleteThread_db_def db_delete_def)
  from m have g: "getMessagesByThread ?s' i = []"
    by (simp add: getMessagesByThread_def collect_asc_def filter_empty_conv)
  from t have n: "getThreadById ?s' i = None"
    by (simp add: getThreadById_def db_get_None_iff)
  from r m t g n show ?thesis by blast
qed

theorem deleteThread_cascade_witness:
  "length (getMessagesByThread example_store 2) = 2
   \<and> (\<exists>s'. deleteThread alice 2 example_store = (Inr (), s')
           \<and> (\<forall>m \<in> set (messages s'). threadId m \<noteq> 2)
           \<and> (\<forall>x \<in> set (threads s'). doc_id x \<noteq> 2)
           \<and> getMessagesByThread s' 2 = []
           \<and> getThreadById s' 2 = None)"
proof -
  have a: "authUser alice = Some ''alice''" by (simp add: alice_def)
  have g: "getThreadById example_store 2 =
      Some \<lparr>doc_id = 2, creationTime = 2, userId = ''alice'', createdAt = 1000,
          thread_title = None, thread_status = ThreadActive, thread_updatedAt = 1000\<rparr>"
    by (simp add: example_store_eq getThreadById_def db_get_def)
  have l: "length (getMessagesByThread example_store 2) = 2"
    by (simp add: example_store_eq getMessagesByThread_def collect_asc_def)
  from deleteThread_cascade [OF a g] l show ?thesis by simp
qed

section \<open>The response of sendMessage\<close>

lemma bob_store_sendMessage:
  "sendMessage bob (Suc 0) txt bob_store =
     (if isValidMessageContent txt then
        (Inr (2, 3),
         bob_store\<lparr>messages :=
           [\<lparr>doc_id = 2, creationTime = 2, userId = ''bob'', createdAt = 2000,
             threadId = 1, role = User, content = txt\<rparr>,
            \<lparr>doc_id = 3, creationTime = 3, userId = ''bob'', createdAt = 2000,
             threadId = 1, role = Assistant, content = aiResponseContent txt\<rparr>],
           next_id := 4, clock := 4\<rparr>)
      else (Inl (ValidationFailed
                    ''Message content must be between 1 and 10,000 characters''), bob_store))"
  by (simp add: sendMessage_def createMessage_def bob_store_eq bob_def getThreadById_def
        db_get_def)

text \<open>
  C8, as stated, fails: the content of the assistant message depends on the input.  Bob
  sends \<open>a\<close>, or else \<open>b\<close>, in his thread; the two assistant messages differ.
\<close>

theorem sendMessage_counterexample:
  "fst (sendMessage bob 1 (ascii ''a'') bob_store) = Inr (2, 3)
   \<and> fst (sendMessage bob 1 (ascii ''b'') bob_store) = Inr (2, 3)
   \<and> map role (messages (snd (sendMessage bob 1 (ascii ''a'') bob_store))) = [User, Assistant]
   \<and> map role (messages (snd (sendMessage bob 1 (ascii ''b'') bob_store))) = [User, Assistant]
   \<and> content (last (messages (snd (sendMessage bob 1 (ascii ''a'') bob_store))))
       \<noteq> content (last (messages (snd (sendMessage bob 1 (ascii ''b'') bob_store))))"
proof -
  have v: "isValidMessageContent (ascii ''a'')" "isValidMessageContent (ascii ''b'')"
    by (simp_all add: isValidMessageContent_def trim_def ascii_def isWhiteSpace_def)
  have d: "aiResponseContent (ascii ''a'') \<noteq> aiResponseContent (ascii ''b'')"
    by (simp add: aiResponseContent_def ascii_def)
  from v d show ?thesis by (simp add: bob_store_sendMessage)
qed

text \<open>
  C8 (amended): on success \<open>sendMessage\<close> appends exactly two messages to the table,
  in this order: the caller's message with role \<open>user\<close> and the given content, then a
  message with role \<open>assistant\<close> whose content is the given content between a fixed
  prefix and a fixed suffix.  Tasks and threads are left as they are.
\<close>

theorem sendMessage_persists:
  assumes "authUser c = Some u" and "ok (limit c ''sendMessage'' u)"
    and "isValidMessageContent txt"
    and "getThreadById s tid = Some th" and "userId th = u"
  shows "\<exists>s'. sendMessage c tid txt s = (Inr (next_id s, Suc (next_id s)), s')
           \<and> messages s' = messages s @
               [\<lparr>doc_id = next_id s, creationTime = clock s, userId = u, createdAt = now c,
                 threadId = tid, role = User, content = txt\<rparr>,
                \<lparr>doc_id = Suc (next_id s), creationTime = Suc (clock s), userId = u,
                 createdAt = now c, threadId = tid, role = Assistant,
                 content = ascii aiResponsePrefix @ txt @ ascii aiResponseSuffix\<rparr>]
           \<and> tasks s' = tasks s \<and> threads s' = threads s"
  using assms
  by (simp add: sendMessage_def createMessage_def aiResponseContent_def)

theorem sendMessage_persists_witness:
  "\<exists>s'. sendMessage bob 1 (ascii ''hi'') bob_store = (Inr (2, 3), s')
           \<and> messages s' =
               [\<lparr>doc_id = 2, creationTime = 2, userId = ''bob'', createdAt = 2000,
                 threadId = 1, role = User, content = ascii ''hi''\<rparr>,
                \<lparr>doc_id = 3, creationTime = 3, userId = ''bob'',
                 createdAt = 2000, threadId = 1, role = Assistant,
                 content = ascii aiResponsePrefix @ ascii ''hi'' @ ascii aiResponseSuffix\<rparr>]"
proof -
  have b: "authUser bob = Some ''bob''" "ok (limit bob ''sendMessage'' ''bob'')"
    by (simp_all add: bob_def)
  have v: "isValidMessageContent (ascii ''hi'')"
    by (simp add: isValidMessageContent_def trim_def ascii_def isWhiteSpace_def)
  have n: "next_id bob_store = 2" "clock bob_store = 2" "messages bob_store = []"
    "now bob = 2000"
    by (simp_all add: bob_store_eq bob_def)
  from sendMessage_persists [OF b v bob_store_thread] n show ?thesis
    by (auto simp: numeral_3_eq_3)
qed

section \<open>Create, complete, reactivate\<close>

lemma db_patch_absent: "\<forall>r \<in> set rows. doc_id r \<noteq> i \<Longrightarrow> db_patch i f rows = rows"
  by (induction rows) (simp_all add: db_patch_def)

lemma db_patch_append_fresh:
  "\<forall>r \<in> set rows. doc_id r \<noteq> doc_id x \<Longrightarrow>
   db_patch (doc_id x) f (rows @ [x]) = rows @ [f x]"
  using db_patch_absent [of rows "doc_id x" f] by (simp add: db_patch_def)

lemma store_inv_fresh: "store_inv s \<Longrightarrow> \<forall>r \<in> set (tasks s). doc_id r \<noteq> next_id s"
  by (auto simp: store_inv_def rows_inv_def)

lemma collect_desc_append_mem: "p x \<Longrightarrow> x \<in> set (collect_desc p (rows @ [x]))"
  by (simp add: collect_desc_def)

lemma collect_desc_append_fresh:
  "\<forall>r \<in> set rows. doc_id r \<noteq> doc_id x \<Longrightarrow> \<not> p x \<Longrightarrow>
   doc_id x \<notin> doc_id ` set (collect_desc p (rows @ [x]))"
  by (auto simp: collect_desc_def)

text \<open>
  C7: on a reachable store, an authenticated user who is not rate-limited creates a task
  with a valid title.  The task is in \<open>listActive\<close>, with no \<open>completedAt\<close>.  After
  \<open>complete\<close> it is not in \<open>listActive\<close>, it is in \<open>listCompleted\<close>, and its
  \<open>completedAt\<close> is set.  After \<open>reactivate\<close> it is in \<open>listActive\<close> again and not in
  \<open>listCompleted\<close>, and it is the created task again but for \<open>updatedAt\<close>.
\<close>

theorem create_complete_reactivate:
  assumes "reachable s"
    and "authUser c1 = Some u" and "ok (limit c1 ''createTask'' u)"
    and "isValidTaskTitle t" and "isValidTaskDescription d"
    and "authUser c2 = Some u" and "ok (limit c2 ''updateTask'' u)"
    and "authUser c3 = Some u" and "ok (limit c3 ''updateTask'' u)"
    and "authUser q = Some u"
  shows "\<exists>i s1 s2 s3 x.
      create c1 t d s = (Inr i, s1)
    \<and> getTaskById s1 i = Some x \<and> status x = Active \<and> completedAt x = None
    \<and> (\<exists>a. listActive q s1 = Inr a \<and> x \<in> set a)
    \<and> complete c2 i s1 = (Inr (), s2)
    \<and> (\<exists>a. listActive q s2 = Inr a \<and> i \<notin> doc_id ` set a)
    \<and> (\<exists>k y. listCompleted q s2 = Inr k \<and> y \<in> set k \<and> getTaskById s2 i = Some y
          \<and> y = x\<lparr>status := Completed, completedAt := Some (now c2), updatedAt := now c2\<rparr>
          \<and> completedAt y \<noteq> None)
    \<and> reactivate c3 i s2 = (Inr (), s3)
    \<and> (\<exists>a. listActive q s3 = Inr a \<and> x\<lparr>updatedAt := now c3\<rparr> \<in> set a)
    \<and> (\<exists>k. listCompleted q s3 = Inr k \<and> i \<notin> doc_id ` set k)
    \<and> getTaskById s3 i = Some (x\<lparr>updatedAt := now c3\<rparr>)"
proof -
  let ?i = "next_id s"
  let ?x = "\<lparr>doc_id = ?i, creationTime = clock s, userId = u, createdAt = now c1,
             title = sanitizeTaskTitle t, description = sanitizeTaskDescription d,
             status = Active, completedAt = None, updatedAt = now c1\<rparr>"
  let ?y = "?x\<lparr>status := Completed, completedAt := Some (now c2), updatedAt := now c2\<rparr>"
  let ?z = "?x\<lparr>updatedAt := now c3\<rparr>"
  let ?s1 = "s\<lparr>tasks := tasks s @ [?x], next_id := Suc ?i, clock := Suc (clock s)\<rparr>"
  let ?s2 = "?s1\<lparr>tasks := tasks s @ [?y]\<rparr>"
  let ?s3 = "?s1\<lparr>tasks := tasks s @ [?z]\<rparr>"
  from assms(1) have "store_inv s" by (rule reachable_store_inv)
  then have fresh: "\<forall>r \<in> set (tasks s). doc_id r \<noteq> ?i" by (rule store_inv_fresh)
  have fx: "\<forall>r \<in> set (tasks s). doc_id r \<noteq> doc_id ?x"
    and fy: "\<forall>r \<in> set (tasks s). doc_id r \<noteq> doc_id ?y"
    and fz: "\<forall>r \<in> set (tasks s). doc_id r \<noteq> doc_id ?z"
    using fresh by simp_all
  have c: "create c1 t d s = (Inr ?i, ?s1)"
    using assms(2-5) by (simp add: create_valid createTask_def)
  have g1: "getTaskById ?s1 ?i = Some ?x"
    using db_get_append_fresh [OF fx] by (simp add: getTaskById_def)
  have p2: "completeTask c2 ?i ?s1 = ?s2"
    using db_patch_append_fresh [OF fx] by (simp add: completeTask_def)
  have k: "complete c2 ?i ?s1 = (Inr (), ?s2)"
    using assms(6,7) g1 p2 by (simp add: complete_def)
  have g2: "getTaskById ?s2 ?i = Some ?y"
    using db_get_append_fresh [OF fy] by (simp add: getTaskById_def)
  have p3: "reactivateTask c3 ?i ?s2 = ?s3"
    using db_patch_append_fresh [OF fy] by (simp add: reactivateTask_def)
  have r: "reactivate c3 ?i ?s2 = (Inr (), ?s3)"
    using assms(8,9) g2 p3 by (simp add: reactivate_def)
  have g3: "getTaskById ?s3 ?i = Some ?z"
    using db_get_append_fresh [OF fz] by (simp add: getTaskById_def)
  have a1: "\<exists>a. listActive q ?s1 = Inr a \<and> ?x \<in> set a"
    using assms(10)
    by (simp add: listActive_def getActiveTasksByUser_def getTasksByUserAndStatus_def
          collect_desc_append_mem)
  have a2: "\<exists>a. listActive q ?s2 = Inr a \<and> ?i \<notin> doc_id ` set a"
    using assms(10)
      collect_desc_append_fresh [OF fy, of "\<lambda>t. userId t = u \<and> status t = Active"]
    by (simp add: listActive_def getActiveTasksByUser_def getTasksByUserAndStatus_def)
  have k2: "\<exists>k. listCompleted q ?s2 = Inr k \<and> ?y \<in> set k"
    using assms(10)
    by (simp add: listCompleted_def getCompletedTasksByUser_def getTasksByUserAndStatus_def
          collect_desc_append_mem)
  have a3: "\<exists>a. listActive q ?s3 = Inr a \<and> ?z \<in> set a"
    using assms(10)
    by (simp add: listActive_def getActiveTasksByUser_def getTasksByUserAndStatus_def
          collect_desc_append_mem)
  have k3: "\<exists>k. listCompleted q ?s3 = Inr k \<and> ?i \<notin> doc_id ` set k"
    using assms(10)
      collect_desc_append_fresh [OF fz, of "\<lambda>t. userId t = u \<and> status t = Completed"]
    by (simp add: listCompleted_def getCompletedTasksByUser_def getTasksByUserAndStatus_def)
  have st: "status ?x = Active" "completedAt ?x = None" "completedAt ?y \<noteq> None" by simp_all
  from k2 g2 st(3) have k2': "\<exists>k y. listCompleted q ?s2 = Inr k \<and> y \<in> set k
          \<and> getTaskById ?s2 ?i = Some y \<and> y = ?y \<and> completedAt y \<noteq> None"
    by blast
  show ?thesis
    apply (rule exI [of _ ?i], rule exI [of _ ?s1], rule exI [of _ ?s2], rule exI [of _ ?s3],
        rule exI [of _ ?x])
    using c g1 st(1,2) a1 k a2 k2' r a3 k3 g3 by (intro conjI) assumption+
qed


lemma buy_milk_valid:
  "isValidTaskTitle (ascii ''Buy milk'')" "isValidTaskTitle (ascii '' Buy milk '')"
  "isValidTaskDescription None"
  by (simp_all add: isValidTaskTitle_def isValidTaskDescription_def trim_def ascii_def
        isWhiteSpace_def)

theorem create_complete_reactivate_witness:
  "\<exists>i s1 s2 s3 x.
      create alice (ascii ''Buy milk'') None empty_db = (Inr i, s1)
    \<and> getTaskById s1 i = Some x \<and> status x = Active \<and> completedAt x = None
    \<and> (\<exists>a. listActive alice s1 = Inr a \<and> x \<in> set a)
    \<and> complete alice i s1 = (Inr (), s2)
    \<and> (\<exists>a. listActive alice s2 = Inr a \<and> i \<notin> doc_id ` set a)
    \<and> (\<exists>k y. listCompleted alice s2 = Inr k \<and> y \<in> set k \<and> getTaskById s2 i = Some y
          \<and> y = x\<lparr>status := Completed, completedAt := Some (now alice),
                   updatedAt := now alice\<rparr>
          \<and> completedAt y \<noteq> None)
    \<and> reactivate alice i s2 = (Inr (), s3)
    \<and> (\<exists>a. listActive alice s3 = Inr a \<and> x\<lparr>updatedAt := now alice\<rparr> \<in> set a)
    \<and> (\<exists>k. listCompleted alice s3 = Inr k \<and> i \<notin> doc_id ` set k)
    \<and> getTaskById s3 i = Some (x\<lparr>updatedAt := now alice\<rparr>)"
proof -
  have a: "authUser alice = Some ''alice''" by (simp add: alice_def)
  have c: "ok (limit alice ''createTask'' ''alice'')" by (simp add: alice_def)
  have u: "ok (limit alice ''updateTask'' ''alice'')" by (simp add: alice_def)
  show ?thesis
    by (rule create_complete_reactivate
          [OF reachable.init a c buy_milk_valid(1) buy_milk_valid(3) a u a u a])
qed

section \<open>What create and update store\<close>

lemma length_trim_le: "length (trim t) \<le> length t"
proof -
  have "length (trim t) \<le> length (rev (dropWhile isWhiteSpace t))"
    unfolding trim_def length_rev [of "dropWhile isWhiteSpace (rev (dropWhile isWhiteSpace t))"]
    by (rule length_dropWhile_le)
  also have "\<dots> \<le> length t"
    by (simp add: length_dropWhile_le)
  finally show ?thesis .
qed

lemma trim_buy_milk: "trim (ascii '' Buy milk '') = ascii ''Buy milk''"
  by (simp add: trim_def ascii_def isWhiteSpace_def)

text \<open>
  C10: for a valid title and description, \<open>create\<close> stores the trimmed title cut to 200
  code units and the trimmed description cut to 5000, whereas \<open>update\<close>, after the
  same validation, stores the title and description it was given; so a title that
  trimming changes is stored untrimmed by \<open>update\<close> and trimmed by \<open>create\<close>.
\<close>

theorem create_sanitizes_update_does_not:
  assumes "authUser c = Some u"
    and "ok (limit c ''createTask'' u)" and "ok (limit c ''updateTask'' u)"
    and "isValidTaskTitle t" and "isValidTaskDescription d"
    and "getTaskById s i = Some old" and "userId old = u"
  shows "\<exists>s1 s2 x y.
      create c t d s = (Inr (next_id s), s1)
    \<and> tasks s1 = tasks s @ [x]
    \<and> title x = take 200 (trim t)
    \<and> description x = map_option (\<lambda>z. take 5000 (trim z)) d
    \<and> update c i (Some t) d s = (Inr (), s2)
    \<and> getTaskById s2 i = Some y
    \<and> title y = t
    \<and> description y = (case d of None \<Rightarrow> description old | Some z \<Rightarrow> Some z)
    \<and> (trim t \<noteq> t \<longrightarrow> title x \<noteq> title y)"
proof -
  let ?x = "\<lparr>doc_id = next_id s, creationTime = clock s, userId = u, createdAt = now c,
             title = sanitizeTaskTitle t, description = sanitizeTaskDescription d,
             status = Active, completedAt = None, updatedAt = now c\<rparr>"
  let ?s1 = "s\<lparr>tasks := tasks s @ [?x], next_id := Suc (next_id s), clock := Suc (clock s)\<rparr>"
  let ?f = "\<lambda>r. r\<lparr>title := t,
                 description := (case d of None \<Rightarrow> description r | Some z \<Rightarrow> Some z),
                 updatedAt := now c\<rparr>"
  let ?s2 = "updateTask c i (Some t) d s"
  have c: "create c t d s = (Inr (next_id s), ?s1)"
    using assms(1,2,4,5) by (simp add: create_valid createTask_def)
  have tx: "title ?x = take 200 (trim t)"
    by (simp add: sanitizeTaskTitle_def slice0_def)
  have dx: "description ?x = map_option (\<lambda>z. take 5000 (trim z)) d"
    by (cases d) (simp_all add: sanitizeTaskDescription_def slice0_def)
  have v: "validateAndSanitizeTask t d = Inr (sanitizeTaskTitle t, sanitizeTaskDescription d)"
    using assms(4,5) by (simp add: validateAndSanitizeTask_def)
  have up: "update c i (Some t) d s = (Inr (), ?s2)"
    using assms(1,3,6,7) v by (simp add: update_def)
  have "getTaskById ?s2 i = map_option ?f (getTaskById s i)"
    using db_get_patch [of ?f i "tasks s"] by (simp add: updateTask_def getTaskById_def)
  then have g: "getTaskById ?s2 i = Some (?f old)"
    using assms(6) by simp
  have l: "length t \<le> 200" using assms(4) by (simp add: isValidTaskTitle_def)
  then have "length (trim t) \<le> 200"
    using length_trim_le [of t] by simp
  then have "take 200 (trim t) = trim t" by simp
  with tx have ne: "trim t \<noteq> t \<longrightarrow> title ?x \<noteq> title (?f old)" by simp
  show ?thesis
    apply (rule exI [of _ ?s1], rule exI [of _ ?s2], rule exI [of _ ?x],
        rule exI [of _ "?f old"])
    using c tx dx up g ne by simp
qed

theorem create_sanitizes_update_does_not_witness:
  "trim (ascii '' Buy milk '') \<noteq> ascii '' Buy milk ''
   \<and> (\<exists>s1 s2 x y.
      create bob (ascii '' Buy milk '') None bob_store = (Inr 2, s1)
    \<and> tasks s1 = tasks bob_store @ [x]
    \<and> title x = ascii ''Buy milk''
    \<and> update bob 0 (Some (ascii '' Buy milk '')) None bob_store = (Inr (), s2)
    \<and> getTaskById s2 0 = Some y
    \<and> title y = ascii '' Buy milk ''
    \<and> title x \<noteq> title y)"
proof -
  have b: "authUser bob = Some ''bob''" "ok (limit bob ''createTask'' ''bob'')"
    "ok (limit bob ''updateTask'' ''bob'')"
    by (simp_all add: bob_def)
  have n: "trim (ascii '' Buy milk '') \<noteq> ascii '' Buy milk ''"
    by (simp add: trim_def ascii_def isWhiteSpace_def)
  have o: "userId \<lparr>doc_id = 0, creationTime = 0, userId = ''bob'', createdAt = 2000,
          title = ascii ''Buy milk'', description = None, status = Active,
          completedAt = None, updatedAt = 2000\<rparr> = ''bob''"
    by simp
  have i: "next_id bob_store = 2" by (simp add: bob_store_eq)
  from create_sanitizes_update_does_not
        [OF b buy_milk_valid(2) buy_milk_valid(3) bob_store_task o] n i
  show ?thesis
    by (auto simp: trim_buy_milk) (simp add: ascii_def)
qed

section \<open>Status transitions\<close>

lemma milk_store_eq:
  "milk_store =
     \<lparr>tasks =
        [\<lparr>doc_id = 0, creationTime = 0, userId = ''alice'', createdAt = 1000,
          title = ascii ''Buy milk'', description = None, status = Active,
          completedAt = None, updatedAt = 1000\<rparr>],
      threads = [], messages = [], next_id = 1, clock = 1\<rparr>"
  by (simp add: milk_store_def alice_def empty_db_def endpoint_defs layer_defs helper_defs)

lemma deleted_store_eq:
  "deleted_store =
     \<lparr>tasks =
        [\<lparr>doc_id = 0, creationTime = 0, userId = ''alice'', createdAt = 1000,
          title = ascii ''Buy milk'', description = None, status = Deleted,
          completedAt = None, updatedAt = 1000\<rparr>],
      threads = [], messages = [], next_id = 1, clock = 1\<rparr>"
  by (simp add: deleted_store_def milk_store_eq alice_def endpoint_defs layer_defs)

lemma completed_deleted_store_eq:
  "completed_deleted_store =
     \<lparr>tasks =
        [\<lparr>doc_id = 0, creationTime = 0, userId = ''alice'', createdAt = 1000,
          title = ascii ''Buy milk'', description = None, status = Deleted,
          completedAt = Some 1000, updatedAt = 1000\<rparr>],
      threads = [], messages = [], next_id = 1, clock = 1\<rparr>"
  by (simp add: completed_deleted_store_def milk_store_eq alice_def endpoint_defs layer_defs)

lemma reachable_deleted_store: "reachable deleted_store"
  unfolding deleted_store_def milk_store_def by (intro reachable.step reachable.init)

lemma reachable_completed_deleted_store: "reachable completed_deleted_store"
  unfolding completed_deleted_store_def milk_store_def
  by (intro reachable.step reachable.init)

lemma in_db_patch:
  "x \<in> set rows \<Longrightarrow> (if doc_id x = i then f x else x) \<in> set (db_patch i f rows)"
  by (auto simp: db_patch_def)

lemma db_patch_row:
  assumes "x \<in> set rows" and "\<And>r. doc_id (f r) = doc_id r"
  shows "\<exists>x' \<in> set (db_patch i f rows). doc_id x' = doc_id x \<and>
           (x' = x \<or> i = doc_id x \<and> x' = f x)"
proof (rule bexI [OF _ in_db_patch [OF assms(1)]])
  show "doc_id (if doc_id x = i then f x else x) = doc_id x \<and>
        ((if doc_id x = i then f x else x) = x \<or>
         i = doc_id x \<and> (if doc_id x = i then f x else x) = f x)"
    using assms(2) by simp
qed

lemma tasks_assistant:
  "tasks (snd (createThread c t s)) = tasks s"
  "tasks (snd (sendMessage c i txt s)) = tasks s"
  "tasks (snd (updateThread c i u s)) = tasks s"
  "tasks (snd (archiveThread c i s)) = tasks s"
  "tasks (snd (deleteThread c i s)) = tasks s"
  by (simp_all add: createThread_def sendMessage_def updateThread_def archiveThread_def
        deleteThread_def createThread_db_def createMessage_def updateThread_db_def
        archiveThread_db_def deleteThread_db_def deleteMessagesByThread_eq
        split: option.splits)

lemma tasks_create: "x \<in> set (tasks s) \<Longrightarrow> x \<in> set (tasks (snd (create c t d s)))"
  by (simp add: create_def createTask_def split: option.splits sum.splits)

lemma tasks_update:
  "x \<in> set (tasks s) \<Longrightarrow>
   \<exists>x' \<in> set (tasks (snd (update c i t d s))). doc_id x' = doc_id x \<and> status x' = status x"
proof -
  assume x: "x \<in> set (tasks s)"
  let ?f = "\<lambda>r. r\<lparr>title := (case t of None \<Rightarrow> title r | Some y \<Rightarrow> y),
                 description := (case d of None \<Rightarrow> description r | Some y \<Rightarrow> Some y),
                 updatedAt := now c\<rparr>"
  have "snd (update c i t d s) = s \<or> snd (update c i t d s) = updateTask c i t d s"
    by (simp add: update_def split: option.splits sum.splits)
  then show ?thesis
  proof
    assume "snd (update c i t d s) = s"
    with x show ?thesis by auto
  next
    assume u: "snd (update c i t d s) = updateTask c i t d s"
    from db_patch_row [OF x, of ?f i] obtain x' where
      "x' \<in> set (db_patch i ?f (tasks s))" and "doc_id x' = doc_id x"
      and "x' = x \<or> i = doc_id x \<and> x' = ?f x"
      by auto
    then show ?thesis
      unfolding u updateTask_def by (intro bexI [of _ x']) auto
  qed
qed

lemma tasks_complete:
  "x \<in> set (tasks s) \<Longrightarrow>
   \<exists>x' \<in> set (tasks (snd (complete c i s))). doc_id x' = doc_id x \<and>
      (status x' = status x \<or> i = doc_id x \<and> status x' = Completed)"
proof -
  assume x: "x \<in> set (tasks s)"
  let ?f = "\<lambda>t. t\<lparr>status := Completed, completedAt := Some (now c), updatedAt := now c\<rparr>"
  have "snd (complete c i s) = s \<or> snd (complete c i s) = completeTask c i s"
    by (simp add: complete_def split: option.splits)
  then show ?thesis
  proof
    assume "snd (complete c i s) = s"
    with x show ?thesis by auto
  next
    assume u: "snd (complete c i s) = completeTask c i s"
    from db_patch_row [OF x, of ?f i] obtain x' where
      "x' \<in> set (db_patch i ?f (tasks s))" and "doc_id x' = doc_id x"
      and "x' = x \<or> i = doc_id x \<and> x' = ?f x"
      by auto
    then show ?thesis
      unfolding u completeTask_def by (intro bexI [of _ x']) auto
  qed
qed

lemma tasks_reactivate:
  "x \<in> set (tasks s) \<Longrightarrow>
   \<exists>x' \<in> set (tasks (snd (reactivate c i s))). doc_id x' = doc_id x \<and>
      (status x' = status x \<or> i = doc_id x \<and> status x' = Active)"
proof -
  assume x: "x \<in> set (tasks s)"
  let ?f = "\<lambda>t. t\<lparr>status := Active, completedAt := None, updatedAt := now c\<rparr>"
  have "snd (reactivate c i s) = s \<or> snd (reactivate c i s) = reactivateTask c i s"
    by (simp add: reactivate_def split: option.splits)
  then show ?thesis
  proof
    assume "snd (reactivate c i s) = s"
    with x show ?thesis by auto
  next
    assume u: "snd (reactivate c i s) = reactivateTask c i s"
    from db_patch_row [OF x, of ?f i] obtain x' where
      "x' \<in> set (db_patch i ?f (tasks s))" and "doc_id x' = doc_id x"
      and "x' = x \<or> i = doc_id x \<and> x' = ?f x"
      by auto
    then show ?thesis
      unfolding u reactivateTask_def by (intro bexI [of _ x']) auto
  qed
qed

lemma tasks_remove:
  "x \<in> set (tasks s) \<Longrightarrow>
   \<exists>x' \<in> set (tasks (snd (remove c i s))). doc_id x' = doc_id x \<and>
      (status x' = status x \<or> i = doc_id x \<and> status x' = Deleted)"
proof -
  assume x: "x \<in> set (tasks s)"
  let ?f = "\<lambda>t. t\<lparr>status := Deleted, updatedAt := now c\<rparr>"
  have "snd (remove c i s) = s \<or> snd (remove c i s) = softDeleteTask c i s"
    by (simp add: remove_def split: option.splits)
  then show ?thesis
  proof
    assume "snd (remove c i s) = s"
    with x show ?thesis by auto
  next
    assume u: "snd (remove c i s) = softDeleteTask c i s"
    from db_patch_row [OF x, of ?f i] obtain x' where
      "x' \<in> set (db_patch i ?f (tasks s))" and "doc_id x' = doc_id x"
      and "x' = x \<or> i = doc_id x \<and> x' = ?f x"
      by auto
    then show ?thesis
      unfolding u softDeleteTask_def by (intro bexI [of _ x']) auto
  qed
qed

lemma tasks_permanentlyDelete:
  "x \<in> set (tasks s) \<Longrightarrow> i \<noteq> doc_id x \<Longrightarrow> x \<in> set (tasks (snd (permanentlyDelete c i s)))"
  by (simp add: permanentlyDelete_def hardDeleteTask_def db_delete_def split: option.splits)

lemma handle_status:
  assumes "x \<in> set (tasks s)"
  shows "r = PermanentlyDelete (doc_id x)
      \<or> (\<exists>x' \<in> set (tasks (handle c r s)). doc_id x' = doc_id x \<and>
           (status x' = status x
            \<or> r = Complete (doc_id x) \<and> status x' = Completed
            \<or> r = Reactivate (doc_id x) \<and> status x' = Active
            \<or> r = Remove (doc_id x) \<and> status x' = Deleted))"
proof (cases r)
  case (Create t d)
  with tasks_create [OF assms, of c t d] show ?thesis by auto
next
  case (Update i t d)
  with tasks_update [OF assms, of c i t d] show ?thesis by auto
next
  case (Complete i)
  with tasks_complete [OF assms, of c i] show ?thesis by auto
next
  case (Reactivate i)
  with tasks_reactivate [OF assms, of c i] show ?thesis by auto
next
  case (Remove i)
  with tasks_remove [OF assms, of c i] show ?thesis by auto
next
  case (PermanentlyDelete i)
  with tasks_permanentlyDelete [OF assms, of i c] show ?thesis by auto
qed (use assms in \<open>auto simp: tasks_assistant\<close>)


lemma deleted_store_task:
  "getTaskById deleted_store 0 =
     Some \<lparr>doc_id = 0, creationTime = 0, userId = ''alice'', createdAt = 1000,
          title = ascii ''Buy milk'', description = None, status = Deleted,
          completedAt = None, updatedAt = 1000\<rparr>"
  by (simp add: deleted_store_eq getTaskById_def db_get_def)

text \<open>
  C3, as stated, fails: Alice creates a task and removes it, so that its status is
  deleted; her \<open>reactivate\<close> then succeeds and makes it active, and her \<open>complete\<close>
  (instead) succeeds and makes it completed.
\<close>

theorem status_transitions_counterexample:
  "reachable deleted_store
   \<and> map status (tasks deleted_store) = [Deleted]
   \<and> fst (reactivate alice 0 deleted_store) = Inr ()
   \<and> map status (tasks (snd (reactivate alice 0 deleted_store))) = [Active]
   \<and> fst (complete alice 0 deleted_store) = Inr ()
   \<and> map status (tasks (snd (complete alice 0 deleted_store))) = [Completed]"
  using reachable_deleted_store
  by (simp add: deleted_store_eq alice_def reactivate_def complete_def getTaskById_def
        db_get_def reactivateTask_def completeTask_def db_patch_def)

text \<open>
  C3 (amended): for the owner of a task, \<open>complete\<close> sets the status to completed,
  \<open>reactivate\<close> to active and \<open>remove\<close> to deleted, whatever the status was (no
  endpoint looks at it), and \<open>permanentlyDelete\<close> removes the row.  No other call
  changes the status of a task, and a task row disappears only through
  \<open>permanentlyDelete\<close> of its id.
\<close>

theorem status_transitions:
  "(authUser c = Some u \<and> getTaskById s i = Some t \<and> userId t = u
      \<and> ok (limit c ''updateTask'' u) \<longrightarrow>
      complete c i s = (Inr (), completeTask c i s)
      \<and> getTaskById (completeTask c i s) i =
          Some (t\<lparr>status := Completed, completedAt := Some (now c), updatedAt := now c\<rparr>)
      \<and> reactivate c i s = (Inr (), reactivateTask c i s)
      \<and> getTaskById (reactivateTask c i s) i =
          Some (t\<lparr>status := Active, completedAt := None, updatedAt := now c\<rparr>))
   \<and> (authUser c = Some u \<and> getTaskById s i = Some t \<and> userId t = u
      \<and> ok (limit c ''deleteTask'' u) \<longrightarrow>
      remove c i s = (Inr (), softDeleteTask c i s)
      \<and> getTaskById (softDeleteTask c i s) i =
          Some (t\<lparr>status := Deleted, updatedAt := now c\<rparr>)
      \<and> permanentlyDelete c i s = (Inr (), hardDeleteTask i s)
      \<and> getTaskById (hardDeleteTask i s) i = None)
   \<and> (x \<in> set (tasks s) \<longrightarrow>
        r = PermanentlyDelete (doc_id x)
      \<or> (\<exists>x' \<in> set (tasks (handle c r s)). doc_id x' = doc_id x \<and>
           (status x' = status x
            \<or> r = Complete (doc_id x) \<and> status x' = Completed
            \<or> r = Reactivate (doc_id x) \<and> status x' = Active
            \<or> r = Remove (doc_id x) \<and> status x' = Deleted)))"
proof (intro conjI impI)
  assume a: "authUser c = Some u \<and> getTaskById s i = Some t \<and> userId t = u
      \<and> ok (limit c ''updateTask'' u)"
  then show "complete c i s = (Inr (), completeTask c i s)"
    by (simp add: complete_def)
  from a show "reactivate c i s = (Inr (), reactivateTask c i s)"
    by (simp add: reactivate_def)
  from a show "getTaskById (completeTask c i s) i =
          Some (t\<lparr>status := Completed, completedAt := Some (now c), updatedAt := now c\<rparr>)"
    by (simp add: getTaskById_def completeTask_def db_get_patch)
  from a show "getTaskById (reactivateTask c i s) i =
          Some (t\<lparr>status := Active, completedAt := None, updatedAt := now c\<rparr>)"
    by (simp add: getTaskById_def reactivateTask_def db_get_patch)
next
  assume a: "authUser c = Some u \<and> getTaskById s i = Some t \<and> userId t = u
      \<and> ok (limit c ''deleteTask'' u)"
  then show "remove c i s = (Inr (), softDeleteTask c i s)"
    by (simp add: remove_def)
  from a show "permanentlyDelete c i s = (Inr (), hardDeleteTask i s)"
    by (simp add: permanentlyDelete_def)
  from a show "getTaskById (softDeleteTask c i s) i =
          Some (t\<lparr>status := Deleted, updatedAt := now c\<rparr>)"
    by (simp add: getTaskById_def softDeleteTask_def db_get_patch)
  show "getTaskById (hardDeleteTask i s) i = None"
    by (simp add: getTaskById_def hardDeleteTask_def db_get_delete)
next
  assume "x \<in> set (tasks s)"
  then show "r = PermanentlyDelete (doc_id x)
      \<or> (\<exists>x' \<in> set (tasks (handle c r s)). doc_id x' = doc_id x \<and>
           (status x' = status x
            \<or> r = Complete (doc_id x) \<and> status x' = Completed
            \<or> r = Reactivate (doc_id x) \<and> status x' = Active
            \<or> r = Remove (doc_id x) \<and> status x' = Deleted))"
    by (rule handle_status)
qed

theorem status_transitions_witness:
  "getTaskById (reactivateTask alice 0 deleted_store) 0 =
     Some \<lparr>doc_id = 0, creationTime = 0, userId = ''alice'', createdAt = 1000,
          title = ascii ''Buy milk'', description = None, status = Active,
          completedAt = None, updatedAt = 1000\<rparr>
   \<and> reactivate alice 0 deleted_store = (Inr (), reactivateTask alice 0 deleted_store)
   \<and> permanentlyDelete alice 0 deleted_store = (Inr (), hardDeleteTask 0 deleted_store)
   \<and> getTaskById (hardDeleteTask 0 deleted_store) 0 = None
   \<and> (\<exists>x' \<in> set (tasks (handle bob (Reactivate 0) deleted_store)).
         doc_id x' = 0 \<and> status x' = Deleted)"
proof -
  let ?t = "\<lparr>doc_id = 0, creationTime = 0, userId = ''alice'', createdAt = 1000,
          title = ascii ''Buy milk'', description = None, status = Deleted,
          completedAt = None, updatedAt = 1000\<rparr>"
  have a: "authUser alice = Some ''alice''" "ok (limit alice ''updateTask'' ''alice'')"
    "ok (limit alice ''deleteTask'' ''alice'')" "now alice = 1000"
    by (simp_all add: alice_def)
  have m: "?t \<in> set (tasks deleted_store)" by (simp add: deleted_store_eq)
  have b: "status x' \<noteq> Active" if "x' \<in> set (tasks (handle bob (Reactivate 0) deleted_store))"
    for x'
    using that
    by (simp add: deleted_store_eq bob_def reactivate_def getTaskById_def db_get_def)
  from status_transitions [of alice "''alice''" deleted_store 0 ?t ?t "Reactivate 0"]
    status_transitions [of bob "''bob''" deleted_store 0 ?t ?t "Reactivate 0"]
    a m deleted_store_task b
  show ?thesis by auto
qed

section \<open>Status and completedAt\<close>

lemma completedAt_reachable:
  "reachable s \<Longrightarrow>
   \<forall>t \<in> set (tasks s).
     (status t = Completed \<longrightarrow> completedAt t \<noteq> None) \<and>
     (status t = Active \<longrightarrow> completedAt t = None)"
proof (induction rule: reachable.induct)
  case init
  then show ?case by (simp add: empty_db_def)
next
  case (step s c r)
  then show ?case
    by (cases r)
       (auto simp: create_def update_def complete_def reactivate_def remove_def
          permanentlyDelete_def createTask_def updateTask_def completeTask_def
          reactivateTask_def softDeleteTask_def hardDeleteTask_def db_patch_def
          db_delete_def tasks_assistant
          split: option.splits sum.splits if_splits)
qed

text \<open>
  C1: the invariant is broken by \<open>remove\<close> on a completed task.  Alice creates a task,
  completes it and removes it: all three calls succeed, and the task is left with
  status deleted and \<open>completedAt\<close> set.  (\<open>softDeleteTask\<close> patches the status only,
  whereas \<open>reactivateTask\<close> also clears \<open>completedAt\<close>.)
\<close>

theorem remove_keeps_completedAt:
  "reachable completed_deleted_store
   \<and> fst (create alice (ascii ''Buy milk'') None empty_db) = Inr 0
   \<and> fst (complete alice 0 milk_store) = Inr ()
   \<and> fst (remove alice 0 (handle alice (Complete 0) milk_store)) = Inr ()
   \<and> map (\<lambda>t. (status t, completedAt t)) (tasks completed_deleted_store) =
       [(Deleted, Some 1000)]"
  using reachable_completed_deleted_store
  by (simp add: completed_deleted_store_eq milk_store_eq)
     (simp add: alice_def empty_db_def endpoint_defs layer_defs helper_defs)

end
